theory Spec2Isabelle
  imports Main "HOL-Library.Char_ord" "HOL-Library.List_Lexorder" "HOL-Library.AList"
begin

section \<open>Data model\<close>

text \<open>
  The order controller (\<^verbatim>\<open>src/controllers/orderController.js\<close>) works on three
  MongoDB collections through Mongoose models: products, orders and coupons.  The
  products and the orders, which the controller reads and writes by \<^verbatim>\<open>_id\<close>, are finite
  maps from the \<^verbatim>\<open>_id\<close> to the document, so the uniqueness of \<^verbatim>\<open>_id\<close> is built in and
  a document does not repeat its own id; the coupons, which it searches by code, are a list.
  An \<^verbatim>\<open>_id\<close> is the hexadecimal string of a well-formed ObjectId.

  JavaScript numbers are modelled as \<^typ>\<open>int\<close>: amounts, prices, quantities and stock
  counts are taken to be integral (JavaScript's doubles add, subtract, multiply and compare
  integers exactly below \<open>2^53\<close>).  A field of the request body that may be absent is an
  \<^typ>\<open>'a option\<close>, \<open>None\<close> standing for JavaScript's \<^verbatim>\<open>undefined\<close>; a field that is
  present has the type the interface documents.
\<close>

type_synonym oid = string

text \<open>
  Modelled from the spec: the Product schema (\<^verbatim>\<open>models/Product.js\<close> is not among the
  sources).  The controller reads \<^verbatim>\<open>name\<close>, \<^verbatim>\<open>price\<close>, \<^verbatim>\<open>stock\<close> and
  \<^verbatim>\<open>images?.[0]?.url\<close> of a product and writes \<^verbatim>\<open>stock\<close>.
\<close>

record product =
  p_name :: string
  p_price :: int
  p_stock :: int
  p_image :: "string option"

text \<open>
  Modelled from the spec: the Coupon schema (\<^verbatim>\<open>models/Coupon.js\<close> is not among the
  sources).  The controller looks a coupon up by \<^verbatim>\<open>code\<close> and keeps its \<^verbatim>\<open>_id\<close>.
\<close>

record coupon =
  c_id :: oid
  c_code :: string

text \<open>The authenticated user of a request (\<^verbatim>\<open>req.user\<close>), absent for a guest.\<close>

record user =
  u_id :: oid
  u_role :: string

text \<open>A line of the request: \<^verbatim>\<open>{ id, quantity }\<close>.\<close>

record item =
  i_id :: oid
  i_quantity :: int

text \<open>The snapshot pushed onto \<^verbatim>\<open>orderItems\<close> by \<^verbatim>\<open>processOrderItems\<close>.\<close>

record order_item =
  oi_product :: oid
  oi_name :: string
  oi_quantity :: int
  oi_price :: int
  oi_image :: "string option"

text \<open>
  The object assigned to \<^verbatim>\<open>order.paymentResult\<close>: \<^verbatim>\<open>{ redirectUrl, status }\<close> by
  \<^verbatim>\<open>generatePayfastPayload\<close>, \<^verbatim>\<open>{ id, status, update_time, rawData }\<close> by
  \<^verbatim>\<open>updateOrderFromPayment\<close>.
\<close>

record paymentResult =
  pr_id :: "string option"
  pr_status :: "string option"
  pr_update_time :: "string option"
  pr_rawData :: "(string \<times> string) list option"
  pr_redirectUrl :: "string option"

text \<open>The order document (\<^verbatim>\<open>orderSchema\<close>).\<close>

record order =
  o_user :: "oid option"
  o_items :: "order_item list"
  o_subtotal :: "int option"
  o_shippingCost :: "int option"
  o_discount :: "int option"
  o_totalAmount :: "int option"
  o_shippingAddress :: "(string \<times> string) list"
  o_paymentMethod :: "string option"
  o_paymentResult :: "paymentResult option"
  o_couponUsed :: "oid option"
  o_status :: string
  o_deliveredAt :: "string option"
  o_trackingId :: "string option"

text \<open>The database: the three collections.\<close>

record db =
  products :: "oid \<rightharpoonup> product"
  orders :: "oid \<rightharpoonup> order"
  coupons :: "coupon list"

text \<open>
  The request body of \<^verbatim>\<open>createOrder\<close> together with \<^verbatim>\<open>req.user\<close>.  The source
  destructures \<^verbatim>\<open>{ items, shippingAddress, paymentMethod, couponCode, ...amounts }\<close>;
  \<^verbatim>\<open>amounts\<close> holds the remaining fields, of which the controller reads
  \<^verbatim>\<open>subtotal\<close>, \<^verbatim>\<open>shippingCost\<close>, \<^verbatim>\<open>discount\<close> and \<^verbatim>\<open>totalAmount\<close>.
  An absent \<^verbatim>\<open>items\<close> and an empty one take the same branch; both are \<open>[]\<close>.
\<close>

record request =
  r_user :: "user option"
  r_items :: "item list"
  r_shippingAddress :: "(string \<times> string) list option"
  r_paymentMethod :: "string option"
  r_couponCode :: "string option"
  r_email :: "string option"
  r_phone :: "string option"
  r_name :: "string option"
  r_subtotal :: "int option"
  r_shippingCost :: "int option"
  r_discount :: "int option"
  r_totalAmount :: "int option"

text \<open>The process environment read by the payment code (\<^verbatim>\<open>process.env.PAYFAST_*\<close>).\<close>

record env =
  PAYFAST_MERCHANT_ID :: "string option"
  PAYFAST_MERCHANT_KEY :: "string option"
  PAYFAST_RETURN_URL :: "string option"
  PAYFAST_CANCEL_URL :: "string option"
  PAYFAST_NOTIFY_URL :: "string option"
  PAYFAST_PASSPHRASE :: "string option"
  PAYFAST_URL :: "string option"

text \<open>
  Every way a handler of the controller ends without its success response: the errors it
  throws (answered with status 500 by the handler's \<^verbatim>\<open>catch\<close>) and the error
  responses it sends itself.
\<close>

datatype error =
    MissingFields "string list"
  | NoItems
  | ProductNotFound oid
  | InsufficientStock string int
  | AmountMismatch
  | CouponRequiresAuth
  | CouponInvalid
  | NoResponse
  | TypeError
  | OrderValidationFailed
  | InvalidStatus
  | OrderNotFound

section \<open>JavaScript values\<close>

text \<open>Truthiness of an optional string, number and object.\<close>

definition truthy_str :: "string option \<Rightarrow> bool" where
  "truthy_str v = (case v of None \<Rightarrow> False | Some s \<Rightarrow> s \<noteq> [])"

definition truthy_num :: "int option \<Rightarrow> bool" where
  "truthy_num v = (case v of None \<Rightarrow> False | Some n \<Rightarrow> n \<noteq> 0)"

definition truthy_obj :: "'a option \<Rightarrow> bool" where
  "truthy_obj v = (case v of None \<Rightarrow> False | Some _ \<Rightarrow> True)"

text \<open>String conversion of a value that may be \<^verbatim>\<open>undefined\<close>.\<close>

definition str_of :: "string option \<Rightarrow> string" where
  "str_of v = (case v of None \<Rightarrow> ''undefined'' | Some s \<Rightarrow> s)"

text \<open>\<^verbatim>\<open>Array.prototype.join\<close>.\<close>

fun join :: "string \<Rightarrow> string list \<Rightarrow> string" where
  "join sep [] = []"
| "join sep [x] = x"
| "join sep (x # y # ys) = x @ sep @ join sep (y # ys)"

text \<open>Decimal digits of a natural number, and \<^verbatim>\<open>toFixed(2)\<close> of an integral number.\<close>

fun digits :: "nat \<Rightarrow> string" where
  "digits n = (if n < 10 then [''0123456789'' ! n]
               else digits (n div 10) @ [''0123456789'' ! (n mod 10)])"

definition toFixed2 :: "int \<Rightarrow> string" where
  "toFixed2 n = (if n < 0 then ''-'' else []) @ digits (nat \<bar>n\<bar>) @ ''.00''"

text \<open>\<^verbatim>\<open>String.prototype.toUpperCase\<close> on the ASCII letters.\<close>

definition toUpperCase :: "string \<Rightarrow> string" where
  "toUpperCase s = map (\<lambda>c. if CHR ''a'' \<le> c \<and> c \<le> CHR ''z''
                              then char_of (of_char c - (32::nat)) else c) s"

text \<open>
  \<^verbatim>\<open>encodeURIComponent\<close>: a string is its UTF-8 bytes; every byte but the unreserved
  characters \<^verbatim>\<open>A-Z a-z 0-9 - _ . ! ~ * ' ( )\<close> becomes \<^verbatim>\<open>%XX\<close>.
\<close>

definition uriUnreserved :: "char \<Rightarrow> bool" where
  "uriUnreserved c = (c \<in> set (''ABCDEFGHIJKLMNOPQRSTUVWXYZabcdefghijklmnopqrstuvwxyz''
      @ ''0123456789-_.!~*()'' @ [CHR 0x27]))"

definition percentEncode :: "char \<Rightarrow> string" where
  "percentEncode c = [CHR ''%'', ''0123456789ABCDEF'' ! (of_char c div 16),
                      ''0123456789ABCDEF'' ! (of_char c mod 16)]"

definition encodeURIComponent :: "string \<Rightarrow> string" where
  "encodeURIComponent s = concat (map (\<lambda>c. if uriUnreserved c then [c] else percentEncode c) s)"

text \<open>
  The serializer of \<^verbatim>\<open>URLSearchParams\<close> (\<^verbatim>\<open>application/x-www-form-urlencoded\<close>):
  letters, digits and \<^verbatim>\<open>* - . _\<close> stay, a space becomes \<^verbatim>\<open>+\<close>, every other byte
  \<^verbatim>\<open>%XX\<close>.
\<close>

definition formUnreserved :: "char \<Rightarrow> bool" where
  "formUnreserved c = (c \<in> set (''ABCDEFGHIJKLMNOPQRSTUVWXYZabcdefghijklmnopqrstuvwxyz''
      @ ''0123456789*-._''))"

definition formEncode :: "string \<Rightarrow> string" where
  "formEncode s = concat (map (\<lambda>c. if formUnreserved c then [c]
                                    else if c = CHR '' '' then ''+'' else percentEncode c) s)"

definition urlSearchParams :: "(string \<times> string) list \<Rightarrow> string" where
  "urlSearchParams params = join ''&'' (map (\<lambda>(k, v). formEncode k @ ''='' @ formEncode v) params)"

section \<open>Order creation\<close>

text \<open>
  \<^verbatim>\<open>requiredFields.filter(field => !req.body[field])\<close>: a field is missing when its
  value is falsy, in the order of \<^verbatim>\<open>requiredFields\<close>.
\<close>

definition missingFields :: "request \<Rightarrow> string list" where
  "missingFields req = map fst (filter (\<lambda>(field, present). \<not> present)
     [(''email'', truthy_str (r_email req)),
      (''phone'', truthy_str (r_phone req)),
      (''name'', truthy_str (r_name req)),
      (''subtotal'', truthy_num (r_subtotal req)),
      (''shippingCost'', truthy_num (r_shippingCost req)),
      (''shippingAddress'', truthy_obj (r_shippingAddress req)),
      (''totalAmount'', truthy_num (r_totalAmount req))])"

text \<open>
  \<^verbatim>\<open>Product.find({ _id: { $in: items.map(i => i.id) } })\<close>: the documents of the
  listed ids, as the request's own in-memory copies.
\<close>

definition findProducts :: "item list \<Rightarrow> (oid \<rightharpoonup> product) \<Rightarrow> (oid \<rightharpoonup> product)" where
  "findProducts items ps = ps |` set (map i_id items)"

text \<open>
  \<^verbatim>\<open>product.save()\<close> after \<^verbatim>\<open>product.stock -= item.quantity\<close>: Mongoose writes the
  modified path, the in-memory stock, to the stored document of that id.
\<close>

definition saveStock :: "oid \<Rightarrow> product \<Rightarrow> (oid \<rightharpoonup> product) \<Rightarrow> (oid \<rightharpoonup> product)" where
  "saveStock i p ps = (case ps i of None \<Rightarrow> ps
                       | Some d \<Rightarrow> ps(i \<mapsto> d\<lparr>p_stock := p_stock p\<rparr>))"

text \<open>
  One iteration of the loop of \<^verbatim>\<open>processOrderItems\<close>.  \<open>docs\<close> are the request's
  in-memory documents (the array \<^verbatim>\<open>products\<close>), \<open>ps\<close> the stored collection;
  \<open>orderItems\<close> and \<open>calculatedSubtotal\<close> are the loop's accumulators.  The stock
  check and the decrement read and write the in-memory document; \<^verbatim>\<open>save\<close> then writes
  the collection.
\<close>

definition processItem ::
  "item \<Rightarrow> (oid \<rightharpoonup> product) \<Rightarrow> (oid \<rightharpoonup> product) \<Rightarrow> order_item list \<Rightarrow> int
   \<Rightarrow> error + (oid \<rightharpoonup> product) \<times> (oid \<rightharpoonup> product) \<times> order_item list \<times> int" where
  "processItem it docs ps orderItems calculatedSubtotal =
     (case docs (i_id it) of
        None \<Rightarrow> Inl (ProductNotFound (i_id it))
      | Some p \<Rightarrow>
          if p_stock p < i_quantity it then Inl (InsufficientStock (p_name p) (p_stock p))
          else
            let p' = p\<lparr>p_stock := p_stock p - i_quantity it\<rparr> in
            Inr (docs(i_id it \<mapsto> p'), saveStock (i_id it) p' ps,
                 orderItems @ [\<lparr>oi_product = i_id it, oi_name = p_name p',
                                  oi_quantity = i_quantity it, oi_price = p_price p',
                                  oi_image = p_image p'\<rparr>],
                 calculatedSubtotal + p_price p' * i_quantity it))"

text \<open>
  The loop.  A \<^verbatim>\<open>throw\<close> leaves it with the collection as the iterations before it
  wrote it.
\<close>

fun processItems ::
  "item list \<Rightarrow> (oid \<rightharpoonup> product) \<Rightarrow> (oid \<rightharpoonup> product) \<Rightarrow> order_item list \<Rightarrow> int
   \<Rightarrow> (error + order_item list \<times> int) \<times> (oid \<rightharpoonup> product)" where
  "processItems [] docs ps orderItems calculatedSubtotal =
     (Inr (orderItems, calculatedSubtotal), ps)"
| "processItems (it # its) docs ps orderItems calculatedSubtotal =
     (case processItem it docs ps orderItems calculatedSubtotal of
        Inl err \<Rightarrow> (Inl err, ps)
      | Inr (docs', ps', orderItems', calculatedSubtotal') \<Rightarrow>
          processItems its docs' ps' orderItems' calculatedSubtotal')"

definition processOrderItems ::
  "item list \<Rightarrow> (oid \<rightharpoonup> product) \<Rightarrow> (oid \<rightharpoonup> product)
   \<Rightarrow> (error + order_item list \<times> int) \<times> (oid \<rightharpoonup> product)" where
  "processOrderItems items docs ps = processItems items docs ps [] 0"

text \<open>
  \<^verbatim>\<open>validateOrderAmounts\<close>.  An absent operand makes \<^verbatim>\<open>calculatedTotal\<close> \<^verbatim>\<open>NaN\<close>, and
  an absent \<^verbatim>\<open>totalAmount\<close> is \<^verbatim>\<open>undefined\<close>: \<^verbatim>\<open>!==\<close> holds in both cases.
\<close>

definition validateOrderAmounts :: "request \<Rightarrow> int \<Rightarrow> error + unit" where
  "validateOrderAmounts amounts calculatedSubtotal =
     (case (r_shippingCost amounts, r_discount amounts, r_totalAmount amounts) of
        (Some shippingCost, Some discount, Some totalAmount) \<Rightarrow>
          if totalAmount \<noteq> calculatedSubtotal + shippingCost - discount
          then Inl AmountMismatch else Inr ()
      | _ \<Rightarrow> Inl AmountMismatch)"

text \<open>\<^verbatim>\<open>handleCoupon\<close>; \<^verbatim>\<open>Coupon.findOne({ code })\<close> is the first coupon of that code.\<close>

definition handleCoupon :: "string option \<Rightarrow> user option \<Rightarrow> coupon list \<Rightarrow> error + coupon option" where
  "handleCoupon couponCode usr cs =
     (if \<not> truthy_str couponCode then Inr None
      else if \<not> truthy_obj usr then Inl CouponRequiresAuth
      else case find (\<lambda>c. c_code c = toUpperCase (str_of couponCode)) cs of
             None \<Rightarrow> Inl CouponInvalid
           | Some c \<Rightarrow> Inr (Some c))"

text \<open>\<^verbatim>\<open>buildShippingAddress\<close>: the spread of \<^verbatim>\<open>address\<close>, three keys overwritten.\<close>

definition buildShippingAddress :: "request \<Rightarrow> (string \<times> string) list \<Rightarrow> (string \<times> string) list" where
  "buildShippingAddress body address =
     AList.update ''fullName'' (str_of (r_name body))
       (AList.update ''phone'' (str_of (r_phone body))
         (AList.update ''email'' (str_of (r_email body)) address))"

text \<open>
  \<^verbatim>\<open>createOrderDocument\<close>: the amounts stored are the fields of \<^verbatim>\<open>amounts\<close>, the
  request's own; \<^verbatim>\<open>discount\<close> has the schema's default 0.
\<close>

definition createOrderDocument ::
  "order_item list \<Rightarrow> (string \<times> string) list \<Rightarrow> string option \<Rightarrow> request \<Rightarrow> oid option
   \<Rightarrow> coupon option \<Rightarrow> order" where
  "createOrderDocument items shippingAddress paymentMethod amounts usr coupon =
     \<lparr>o_user = usr,
      o_items = items,
      o_subtotal = r_subtotal amounts,
      o_shippingCost = r_shippingCost amounts,
      o_discount = (case r_discount amounts of None \<Rightarrow> Some 0 | Some d \<Rightarrow> Some d),
      o_totalAmount = r_totalAmount amounts,
      o_shippingAddress = shippingAddress,
      o_paymentMethod = paymentMethod,
      o_paymentResult = None,
      o_couponUsed = map_option c_id coupon,
      o_status = ''Processing'',
      o_deliveredAt = None,
      o_trackingId = None\<rparr>"

section \<open>Payment gateway\<close>

text \<open>
  The canonical string both directions hash:
  \<^verbatim>\<open>Object.keys(o).sort().map(key => `${key}=${encodeURIComponent(o[key])}`).join('&')\<close>.
  An object is an association list with distinct keys.
\<close>

definition signatureString :: "(string \<times> string) list \<Rightarrow> string" where
  "signatureString params =
     join ''&'' (map (\<lambda>key. key @ ''='' @ encodeURIComponent (str_of (map_of params key)))
                     (sort (map fst params)))"

text \<open>The parameters \<^verbatim>\<open>generatePayfastPayload\<close> signs, in the order it sets them.\<close>

definition payfastParams :: "env \<Rightarrow> oid \<Rightarrow> int \<Rightarrow> (string \<times> string) list" where
  "payfastParams e order_id totalAmount =
     [(''merchant_id'', str_of (PAYFAST_MERCHANT_ID e)),
      (''merchant_key'', str_of (PAYFAST_MERCHANT_KEY e)),
      (''return_url'', str_of (PAYFAST_RETURN_URL e)),
      (''cancel_url'', str_of (PAYFAST_CANCEL_URL e)),
      (''notify_url'', str_of (PAYFAST_NOTIFY_URL e)),
      (''m_payment_id'', order_id),
      (''amount'', toFixed2 totalAmount),
      (''item_name'', ''Order #'' @ order_id)]
     @ (if truthy_str (PAYFAST_PASSPHRASE e)
        then [(''passphrase'', str_of (PAYFAST_PASSPHRASE e))] else [])"

text \<open>
  The signature \<^verbatim>\<open>generatePayfastPayload\<close> attaches.  \<open>md5\<close> is the hex digest of
  Node's \<^verbatim>\<open>crypto.createHash('md5')\<close>, a parameter of the model.
\<close>

definition payfastSignature :: "(string \<Rightarrow> string) \<Rightarrow> env \<Rightarrow> oid \<Rightarrow> int \<Rightarrow> string" where
  "payfastSignature md5 e order_id totalAmount =
     md5 (signatureString (payfastParams e order_id totalAmount))"

definition generatePayfastPayload ::
  "(string \<Rightarrow> string) \<Rightarrow> env \<Rightarrow> oid \<Rightarrow> order \<Rightarrow> error + paymentResult" where
  "generatePayfastPayload md5 e order_id ord =
     (case o_totalAmount ord of
        None \<Rightarrow> Inl TypeError
      | Some totalAmount \<Rightarrow>
          Inr \<lparr>pr_id = None, pr_status = Some ''pending'', pr_update_time = None,
               pr_rawData = None,
               pr_redirectUrl = Some (str_of (PAYFAST_URL e) @ ''?'' @
                 urlSearchParams (payfastParams e order_id totalAmount
                   @ [(''signature'', payfastSignature md5 e order_id totalAmount)]))\<rparr>)"

text \<open>
  \<^verbatim>\<open>verifyPayfastSignature\<close>: the canonical string of the received fields, the
  passphrase appended at its end when one is configured.
\<close>

definition verifyString :: "env \<Rightarrow> (string \<times> string) list \<Rightarrow> string" where
  "verifyString e data =
     signatureString data
     @ (if truthy_str (PAYFAST_PASSPHRASE e)
        then ''&passphrase='' @ encodeURIComponent (str_of (PAYFAST_PASSPHRASE e)) else [])"

definition verifyPayfastSignature ::
  "(string \<Rightarrow> string) \<Rightarrow> env \<Rightarrow> (string \<times> string) list \<Rightarrow> string option \<Rightarrow> bool" where
  "verifyPayfastSignature md5 e data receivedSignature =
     (Some (md5 (verifyString e data)) = receivedSignature)"

text \<open>
  The schema's validation, run by \<^verbatim>\<open>order.save()\<close>: every quantity at least 1, a
  total, and a payment method of the enumeration.
\<close>

definition orderValid :: "order \<Rightarrow> bool" where
  "orderValid ord =
     (list_all (\<lambda>it. 1 \<le> oi_quantity it) (o_items ord)
      \<and> o_totalAmount ord \<noteq> None
      \<and> (o_paymentMethod ord = Some ''COD'' \<or> o_paymentMethod ord = Some ''PayFast''))"

text \<open>
  What \<^verbatim>\<open>createOrder\<close> does after \<^verbatim>\<open>processOrderItems\<close> has returned: the amount
  check, the coupon, the order document, the payment payload and \<^verbatim>\<open>order.save()\<close>.
  \<open>new_id\<close> is the \<^verbatim>\<open>_id\<close> the new document gets.  The branch
  \<^verbatim>\<open>if (couponCode && !coupon) return\<close> sends no response (\<open>NoResponse\<close>).  The
  confirmation e-mail to a guest is not part of the model.
\<close>

definition finishOrder ::
  "(string \<Rightarrow> string) \<Rightarrow> env \<Rightarrow> oid \<Rightarrow> request \<Rightarrow> order_item list \<Rightarrow> int \<Rightarrow> db
   \<Rightarrow> (error + oid \<times> order) \<times> db" where
  "finishOrder md5 e new_id req orderItems calculatedSubtotal d =
     (case validateOrderAmounts req calculatedSubtotal of
        Inl err \<Rightarrow> (Inl err, d)
      | Inr _ \<Rightarrow>
         (case handleCoupon (r_couponCode req) (r_user req) (coupons d) of
            Inl err \<Rightarrow> (Inl err, d)
          | Inr coupon \<Rightarrow>
              if truthy_str (r_couponCode req) \<and> coupon = None then (Inl NoResponse, d)
              else
                let ord = createOrderDocument orderItems
                            (buildShippingAddress req (case r_shippingAddress req of
                                                         None \<Rightarrow> [] | Some a \<Rightarrow> a))
                            (r_paymentMethod req) req (map_option u_id (r_user req)) coupon
                in
                (case (if r_paymentMethod req = Some ''PayFast''
                       then map_sum id (\<lambda>pr. ord\<lparr>o_paymentResult := Some pr\<rparr>)
                              (generatePayfastPayload md5 e new_id ord)
                       else Inr ord) of
                   Inl err \<Rightarrow> (Inl err, d)
                 | Inr ord' \<Rightarrow>
                     if \<not> orderValid ord' then (Inl OrderValidationFailed, d)
                     else (Inr (new_id, ord'), d\<lparr>orders := (orders d)(new_id \<mapsto> ord')\<rparr>))))"

text \<open>
  \<^verbatim>\<open>createOrder\<close>: the result is the created order, or the error the request ends
  with, and the database as the request leaves it.
\<close>

definition createOrder ::
  "(string \<Rightarrow> string) \<Rightarrow> env \<Rightarrow> oid \<Rightarrow> request \<Rightarrow> db \<Rightarrow> (error + oid \<times> order) \<times> db" where
  "createOrder md5 e new_id req d =
     (if missingFields req \<noteq> [] then (Inl (MissingFields (missingFields req)), d)
      else if r_items req = [] then (Inl NoItems, d)
      else
        (case processOrderItems (r_items req) (findProducts (r_items req) (products d))
                (products d) of
           (Inl err, ps) \<Rightarrow> (Inl err, d\<lparr>products := ps\<rparr>)
         | (Inr (orderItems, calculatedSubtotal), ps) \<Rightarrow>
             finishOrder md5 e new_id req orderItems calculatedSubtotal (d\<lparr>products := ps\<rparr>)))"

text \<open>Order-creation requests handled one after another, each to its end.\<close>

fun createOrders ::
  "(string \<Rightarrow> string) \<Rightarrow> env \<Rightarrow> (oid \<times> request) list \<Rightarrow> db
   \<Rightarrow> (error + oid \<times> order) list \<times> db" where
  "createOrders md5 e [] d = ([], d)"
| "createOrders md5 e ((new_id, req) # rest) d =
     (case createOrder md5 e new_id req d of
        (r, d') \<Rightarrow> (case createOrders md5 e rest d' of (rs, d'') \<Rightarrow> (r # rs, d'')))"

text \<open>
  The units of product \<open>i\<close> a list of request lines asks for, the units of it an order
  holds, and the units held by the orders a list of results created.
\<close>

definition demand :: "oid \<Rightarrow> item list \<Rightarrow> int" where
  "demand i its = sum_list (map i_quantity (filter (\<lambda>it. i_id it = i) its))"

definition orderedUnits :: "oid \<Rightarrow> order_item list \<Rightarrow> int" where
  "orderedUnits i its = sum_list (map oi_quantity (filter (\<lambda>it. oi_product it = i) its))"

definition committedUnits :: "oid \<Rightarrow> (error + oid \<times> order) list \<Rightarrow> int" where
  "committedUnits i rs =
     sum_list (map (\<lambda>r. case r of Inl _ \<Rightarrow> 0 | Inr (_, ord) \<Rightarrow> orderedUnits i (o_items ord)) rs)"

section \<open>Concurrent order creation\<close>

text \<open>
  A request in flight.  \<^verbatim>\<open>createOrder\<close> is an \<^verbatim>\<open>async\<close> function: it runs alone up
  to an \<^verbatim>\<open>await\<close> of a database operation, and other requests run before it resumes.
  Its operations on the products are \<^verbatim>\<open>await Product.find\<close> and one
  \<^verbatim>\<open>await product.save()\<close> per line; what it computes between them reads its own
  in-memory documents only.  A step of an attempt is therefore the code up to and
  including its next database operation:
  \<^item> \<open>Waiting\<close>: the handler has not started; the step checks the fields and reads
    the products.
  \<^item> \<open>InLoop\<close>: suspended in the loop of \<^verbatim>\<open>processOrderItems\<close> with the lines left,
    the in-memory documents and the accumulators; the step is one iteration, or, with no
    line left, the rest of \<^verbatim>\<open>createOrder\<close>.
  \<^item> \<open>Ended\<close>: the response is sent.
\<close>

datatype attempt =
    Waiting oid request
  | InLoop oid request "item list" "oid \<rightharpoonup> product" "order_item list" int
  | Ended "error + oid \<times> order"

fun stepAttempt :: "(string \<Rightarrow> string) \<Rightarrow> env \<Rightarrow> attempt \<Rightarrow> db \<Rightarrow> attempt \<times> db" where
  "stepAttempt md5 e (Waiting new_id req) d =
     (if missingFields req \<noteq> [] then (Ended (Inl (MissingFields (missingFields req))), d)
      else if r_items req = [] then (Ended (Inl NoItems), d)
      else (InLoop new_id req (r_items req) (findProducts (r_items req) (products d)) [] 0, d))"
| "stepAttempt md5 e (InLoop new_id req [] docs orderItems calculatedSubtotal) d =
     (case finishOrder md5 e new_id req orderItems calculatedSubtotal d of
        (r, d') \<Rightarrow> (Ended r, d'))"
| "stepAttempt md5 e (InLoop new_id req (it # its) docs orderItems calculatedSubtotal) d =
     (case processItem it docs (products d) orderItems calculatedSubtotal of
        Inl err \<Rightarrow> (Ended (Inl err), d)
      | Inr (docs', ps', orderItems', calculatedSubtotal') \<Rightarrow>
          (InLoop new_id req its docs' orderItems' calculatedSubtotal', d\<lparr>products := ps'\<rparr>))"
| "stepAttempt md5 e (Ended r) d = (Ended r, d)"

text \<open>
  A schedule names, step by step, the attempt that runs next; \<open>runSchedule\<close> is the
  interleaving it describes.
\<close>

fun runSchedule ::
  "(string \<Rightarrow> string) \<Rightarrow> env \<Rightarrow> nat list \<Rightarrow> attempt list \<Rightarrow> db \<Rightarrow> attempt list \<times> db" where
  "runSchedule md5 e [] atts d = (atts, d)"
| "runSchedule md5 e (k # ks) atts d =
     (if k < length atts
      then (case stepAttempt md5 e (atts ! k) d of
              (a, d') \<Rightarrow> runSchedule md5 e ks (atts[k := a]) d')
      else runSchedule md5 e ks atts d)"

text \<open>The results of the attempts that have ended.\<close>

fun results :: "attempt list \<Rightarrow> (error + oid \<times> order) list" where
  "results [] = []"
| "results (Ended r # atts) = r # results atts"
| "results (_ # atts) = results atts"

section \<open>Order status\<close>

definition validStatuses :: "string list" where
  "validStatuses = [''Processing'', ''Shipped'', ''Delivered'', ''Cancelled'', ''Tracking'']"

text \<open>
  \<^verbatim>\<open>restoreStock\<close>: one \<^verbatim>\<open>updateOne\<close> with \<^verbatim>\<open>$inc: { stock: item.quantity }\<close> per
  line of the order, applied in order; an update whose filter matches no product changes
  nothing.
\<close>

fun restoreStock :: "order_item list \<Rightarrow> (oid \<rightharpoonup> product) \<Rightarrow> (oid \<rightharpoonup> product)" where
  "restoreStock [] ps = ps"
| "restoreStock (it # its) ps =
     restoreStock its
       (case ps (oi_product it) of
          None \<Rightarrow> ps
        | Some p \<Rightarrow> ps(oi_product it \<mapsto> p\<lparr>p_stock := p_stock p + oi_quantity it\<rparr>))"

text \<open>
  \<^verbatim>\<open>handleStatusChange\<close>: the restock on \<^verbatim>\<open>Cancelled\<close>, and \<^verbatim>\<open>deliveredAt\<close> set on
  the in-memory order (which is not saved again).  The handler does not await it: the
  bulk write is issued before the response and the model applies it.  The e-mail is not
  part of the model.
\<close>

definition handleStatusChange :: "string \<Rightarrow> order \<Rightarrow> string \<Rightarrow> db \<Rightarrow> order \<times> db" where
  "handleStatusChange now ord newStatus d =
     (if newStatus = ''Delivered'' then ord\<lparr>o_deliveredAt := Some now\<rparr> else ord,
      if newStatus = ''Cancelled'' then d\<lparr>products := restoreStock (o_items ord) (products d)\<rparr>
      else d)"

text \<open>
  \<^verbatim>\<open>updateOrderStatus\<close>: \<^verbatim>\<open>findByIdAndUpdate\<close> writes the status (and a truthy
  tracking id) and returns the updated order; the status-specific actions follow.
\<close>

definition updateOrderStatus ::
  "string \<Rightarrow> oid \<Rightarrow> string \<Rightarrow> string option \<Rightarrow> db \<Rightarrow> (error + order) \<times> db" where
  "updateOrderStatus now order_id status trackingId d =
     (if status \<notin> set validStatuses then (Inl InvalidStatus, d)
      else case orders d order_id of
             None \<Rightarrow> (Inl OrderNotFound, d)
           | Some ord \<Rightarrow>
               let ord' = (if truthy_str trackingId
                           then ord\<lparr>o_status := status, o_trackingId := trackingId\<rparr>
                           else ord\<lparr>o_status := status\<rparr>)
               in (case handleStatusChange now ord' status
                          (d\<lparr>orders := (orders d)(order_id \<mapsto> ord')\<rparr>) of
                     (ord'', d') \<Rightarrow> (Inr ord'', d')))"

section \<open>Payment notification\<close>

text \<open>\<^verbatim>\<open>updateOrderFromPayment\<close>; \<open>now\<close> is \<^verbatim>\<open>new Date().toISOString()\<close>.\<close>

definition updateOrderFromPayment :: "string \<Rightarrow> order \<Rightarrow> (string \<times> string) list \<Rightarrow> order" where
  "updateOrderFromPayment now ord data =
     (let ord' = ord\<lparr>o_paymentResult :=
                   Some \<lparr>pr_id = map_of data ''pf_payment_id'',
                         pr_status = map_of data ''payment_status'',
                         pr_update_time = Some now,
                         pr_rawData = Some data,
                         pr_redirectUrl = None\<rparr>\<rparr>
      in if map_of data ''payment_status'' = Some ''COMPLETE'' then ord'\<lparr>o_status := ''Processing''\<rparr>
         else if map_of data ''payment_status'' = Some ''FAILED'' then ord'\<lparr>o_status := ''Cancelled''\<rparr>
         else ord')"

text \<open>
  \<^verbatim>\<open>handlePayfastNotification\<close>: the HTTP status of the response and the database
  after it.  \<open>body\<close> is \<^verbatim>\<open>req.body\<close>, \<open>now\<close> the time of the delivery.
\<close>

definition handlePayfastNotification ::
  "(string \<Rightarrow> string) \<Rightarrow> env \<Rightarrow> string \<Rightarrow> (string \<times> string) list \<Rightarrow> db \<Rightarrow> nat \<times> db" where
  "handlePayfastNotification md5 e now body d =
     (let signature = map_of body ''signature'';
          data = AList.delete ''signature'' body
      in if \<not> verifyPayfastSignature md5 e data signature then (400, d)
         else case map_of data ''m_payment_id'' of
                None \<Rightarrow> (404, d)
              | Some order_id \<Rightarrow>
                  (case orders d order_id of
                     None \<Rightarrow> (404, d)
                   | Some ord \<Rightarrow>
                       (200, d\<lparr>orders := (orders d)(order_id \<mapsto>
                                   updateOrderFromPayment now ord data)\<rparr>)))"

text \<open>The same notification delivered once at each of the given times, in order.\<close>

fun deliveries ::
  "(string \<Rightarrow> string) \<Rightarrow> env \<Rightarrow> string list \<Rightarrow> (string \<times> string) list \<Rightarrow> db \<Rightarrow> db" where
  "deliveries md5 e [] body d = d"
| "deliveries md5 e (now # later) body d =
     deliveries md5 e later body (snd (handlePayfastNotification md5 e now body d))"

section \<open>Example data\<close>

text \<open>
  A shop with two products, a guest's request for two flasks at 50 each (subtotal 100,
  shipping 10, discount 5, total 105), a gateway configuration without passphrase, and the
  identity in the place of the digest.
\<close>

definition idA :: oid where "idA = ''65f1a0000000000000000a01''"
definition idB :: oid where "idB = ''65f1a0000000000000000b02''"
definition idO :: oid where "idO = ''65f1a0000000000000000c03''"
definition idP :: oid where "idP = ''65f1a0000000000000000c04''"

definition ex_md5 :: "string \<Rightarrow> string" where
  "ex_md5 s = s"

definition ex_env :: env where
  "ex_env = \<lparr>PAYFAST_MERCHANT_ID = Some ''10000100'',
             PAYFAST_MERCHANT_KEY = Some ''46f0cd694581a'',
             PAYFAST_RETURN_URL = Some ''https://shop.example/return'',
             PAYFAST_CANCEL_URL = Some ''https://shop.example/cancel'',
             PAYFAST_NOTIFY_URL = Some ''https://shop.example/notify'',
             PAYFAST_PASSPHRASE = None,
             PAYFAST_URL = Some ''https://sandbox.payfast.co.za/eng/process''\<rparr>"

definition ex_db :: db where
  "ex_db = \<lparr>products = [idA \<mapsto> \<lparr>p_name = ''Flask'', p_price = 50, p_stock = 3, p_image = None\<rparr>,
                         idB \<mapsto> \<lparr>p_name = ''Lid'', p_price = 20, p_stock = 0, p_image = None\<rparr>],
            orders = Map.empty,
            coupons = []\<rparr>"

definition ex_request :: request where
  "ex_request = \<lparr>r_user = None,
                 r_items = [\<lparr>i_id = idA, i_quantity = 2\<rparr>],
                 r_shippingAddress = Some [(''city'', ''Lahore'')],
                 r_paymentMethod = Some ''COD'',
                 r_couponCode = None,
                 r_email = Some ''a@shop.example'',
                 r_phone = Some ''03001234567'',
                 r_name = Some ''Ayesha'',
                 r_subtotal = Some 100,
                 r_shippingCost = Some 10,
                 r_discount = Some 5,
                 r_totalAmount = Some 105\<rparr>"

definition ex_request_two :: request where
  "ex_request_two = ex_request\<lparr>r_items := [\<lparr>i_id = idA, i_quantity = 2\<rparr>,
                                            \<lparr>i_id = idB, i_quantity = 1\<rparr>],
                               r_subtotal := Some 120, r_totalAmount := Some 125\<rparr>"

definition ex_request_coupon :: request where
  "ex_request_coupon = ex_request\<lparr>r_couponCode := Some ''SAVE10''\<rparr>"

definition ex_db_ordered :: db where
  "ex_db_ordered = snd (createOrder ex_md5 ex_env idO ex_request ex_db)"

definition ex_order :: order where
  "ex_order = \<lparr>o_user = None,
     o_items = [\<lparr>oi_product = idA, oi_name = ''Flask'', oi_quantity = 2, oi_price = 50,
                 oi_image = None\<rparr>],
     o_subtotal = Some 100, o_shippingCost = Some 10, o_discount = Some 5,
     o_totalAmount = Some 105,
     o_shippingAddress = [(''city'', ''Lahore''), (''email'', ''a@shop.example''),
                          (''phone'', ''03001234567''), (''fullName'', ''Ayesha'')],
     o_paymentMethod = Some ''COD'', o_paymentResult = None, o_couponUsed = None,
     o_status = ''Processing'', o_deliveredAt = None, o_trackingId = None\<rparr>"

definition ex_failed_data :: "(string \<times> string) list" where
  "ex_failed_data = [(''m_payment_id'', idO), (''pf_payment_id'', ''1089250''),
                     (''payment_status'', ''FAILED'')]"

definition ex_failed_body :: "(string \<times> string) list" where
  "ex_failed_body = ex_failed_data @ [(''signature'', ex_md5 (verifyString ex_env ex_failed_data))]"

definition ex_env_pass :: env where
  "ex_env_pass = ex_env\<lparr>PAYFAST_PASSPHRASE := Some ''secret''\<rparr>"


section \<open>The item loop\<close>

lemma demand_Nil [simp]: "demand i [] = 0"
  by (simp add: demand_def)

lemma demand_Cons [simp]:
  "demand i (it # its) = (if i_id it = i then i_quantity it else 0) + demand i its"
  by (simp add: demand_def)

lemma demand_append [simp]: "demand i (xs @ ys) = demand i xs + demand i ys"
  by (simp add: demand_def)

lemma processItem_Inr:
  assumes "processItem it docs ps ois sub = Inr (docs', ps', ois', sub')" and "docs \<subseteq>\<^sub>m ps"
  shows "\<exists>p. docs (i_id it) = Some p \<and> ps (i_id it) = Some p \<and> i_quantity it \<le> p_stock p
     \<and> docs' = docs(i_id it \<mapsto> p\<lparr>p_stock := p_stock p - i_quantity it\<rparr>)
     \<and> ps' = ps(i_id it \<mapsto> p\<lparr>p_stock := p_stock p - i_quantity it\<rparr>)
     \<and> ois' = ois @ [\<lparr>oi_product = i_id it, oi_name = p_name p, oi_quantity = i_quantity it,
                       oi_price = p_price p, oi_image = p_image p\<rparr>]
     \<and> sub' = sub + p_price p * i_quantity it"
proof -
  from assms(1) obtain p where p: "docs (i_id it) = Some p"
    by (auto simp: processItem_def split: option.splits)
  with assms(2) have ps: "ps (i_id it) = Some p"
    by (auto simp: map_le_def dom_def)
  from assms(1) p ps show ?thesis
    by (auto simp: processItem_def saveStock_def Let_def split: if_splits)
qed

lemma processItem_Inl:
  assumes "processItem it docs ps ois sub = Inl err"
  shows "(docs (i_id it) = None \<and> err = ProductNotFound (i_id it))
       \<or> (\<exists>p. docs (i_id it) = Some p \<and> p_stock p < i_quantity it
              \<and> err = InsufficientStock (p_name p) (p_stock p))"
  using assms by (auto simp: processItem_def Let_def split: option.splits if_splits)

lemma processItems_success:
  assumes "processItems its docs ps ois sub = (Inr (ois', sub'), ps')" and "docs \<subseteq>\<^sub>m ps"
  shows "ps' i = map_option (\<lambda>p. p\<lparr>p_stock := p_stock p - demand i its\<rparr>) (ps i)"
  using assms
proof (induction its arbitrary: docs ps ois sub)
  case Nil
  then show ?case by (cases "ps i") auto
next
  case (Cons it its)
  from Cons.prems(1) obtain docs1 ps1 ois1 sub1 where
    step: "processItem it docs ps ois sub = Inr (docs1, ps1, ois1, sub1)" and
    rest: "processItems its docs1 ps1 ois1 sub1 = (Inr (ois', sub'), ps')"
    by (auto split: sum.splits)
  from processItem_Inr [OF step Cons.prems(2)] obtain p where
    p: "docs (i_id it) = Some p" "ps (i_id it) = Some p"
       "docs1 = docs(i_id it \<mapsto> p\<lparr>p_stock := p_stock p - i_quantity it\<rparr>)"
       "ps1 = ps(i_id it \<mapsto> p\<lparr>p_stock := p_stock p - i_quantity it\<rparr>)"
    by blast
  have le: "docs1 \<subseteq>\<^sub>m ps1"
    using Cons.prems(2) p by (auto simp: map_le_def)
  from Cons.IH [OF rest le] have
    "ps' i = map_option (\<lambda>p. p\<lparr>p_stock := p_stock p - demand i its\<rparr>) (ps1 i)" .
  then show ?case
    using p by (cases "ps i") (auto simp: algebra_simps)
qed


lemma processItems_failure:
  assumes "processItems its docs ps ois sub = (Inl err, ps')" and "docs \<subseteq>\<^sub>m ps"
    and "\<forall>it \<in> set its. docs (i_id it) = ps (i_id it)"
  shows "\<exists>pre it post. its = pre @ it # post
     \<and> (\<forall>i. ps' i = map_option (\<lambda>p. p\<lparr>p_stock := p_stock p - demand i pre\<rparr>) (ps i))
     \<and> (case ps (i_id it) of
          None \<Rightarrow> err = ProductNotFound (i_id it)
        | Some p \<Rightarrow> p_stock p - demand (i_id it) pre < i_quantity it
            \<and> err = InsufficientStock (p_name p) (p_stock p - demand (i_id it) pre))"
  using assms
proof (induction its arbitrary: docs ps ois sub)
  case Nil
  then show ?case by simp
next
  case (Cons it its)
  show ?case
  proof (cases "processItem it docs ps ois sub")
    case (Inl err1)
    with Cons.prems(1) have e: "err1 = err" and same: "ps' = ps" by auto
    have same': "\<forall>i. ps' i = map_option (\<lambda>p. p\<lparr>p_stock := p_stock p - demand i []\<rparr>) (ps i)"
      using same by (auto simp: option.map_ident)
    have cause: "case ps (i_id it) of
          None \<Rightarrow> err = ProductNotFound (i_id it)
        | Some p \<Rightarrow> p_stock p - demand (i_id it) [] < i_quantity it
            \<and> err = InsufficientStock (p_name p) (p_stock p - demand (i_id it) [])"
      using processItem_Inl [OF Inl] Cons.prems(3) e by (auto split: option.splits)
    have "it # its = [] @ it # its" by simp
    with same' cause show ?thesis by blast
  next
    case (Inr t)
    then obtain docs1 ps1 ois1 sub1 where
      step: "processItem it docs ps ois sub = Inr (docs1, ps1, ois1, sub1)"
      by (cases t) auto
    with Cons.prems(1) have rest: "processItems its docs1 ps1 ois1 sub1 = (Inl err, ps')"
      by simp
    from processItem_Inr [OF step Cons.prems(2)] obtain p where
      p: "docs (i_id it) = Some p" "ps (i_id it) = Some p"
         "docs1 = docs(i_id it \<mapsto> p\<lparr>p_stock := p_stock p - i_quantity it\<rparr>)"
         "ps1 = ps(i_id it \<mapsto> p\<lparr>p_stock := p_stock p - i_quantity it\<rparr>)"
      by blast
    have le: "docs1 \<subseteq>\<^sub>m ps1"
      using Cons.prems(2) p by (auto simp: map_le_def)
    have agree: "\<forall>it' \<in> set its. docs1 (i_id it') = ps1 (i_id it')"
      using Cons.prems(3) p by auto
    from Cons.IH [OF rest le agree] obtain pre it' post where
      split: "its = pre @ it' # post" and
      stock: "\<forall>i. ps' i = map_option (\<lambda>p. p\<lparr>p_stock := p_stock p - demand i pre\<rparr>) (ps1 i)" and
      cause: "case ps1 (i_id it') of
          None \<Rightarrow> err = ProductNotFound (i_id it')
        | Some p \<Rightarrow> p_stock p - demand (i_id it') pre < i_quantity it'
            \<and> err = InsufficientStock (p_name p) (p_stock p - demand (i_id it') pre)"
      by blast
    have split': "it # its = (it # pre) @ it' # post"
      using split by simp
    have stock': "\<forall>i. ps' i = map_option (\<lambda>p. p\<lparr>p_stock := p_stock p - demand i (it # pre)\<rparr>) (ps i)"
    proof
      fix i
      show "ps' i = map_option (\<lambda>p. p\<lparr>p_stock := p_stock p - demand i (it # pre)\<rparr>) (ps i)"
        using stock [rule_format, of i] p by (cases "ps i") (auto simp: algebra_simps)
    qed
    have cause': "case ps (i_id it') of
          None \<Rightarrow> err = ProductNotFound (i_id it')
        | Some p \<Rightarrow> p_stock p - demand (i_id it') (it # pre) < i_quantity it'
            \<and> err = InsufficientStock (p_name p) (p_stock p - demand (i_id it') (it # pre))"
      using cause p by (cases "i_id it' = i_id it") (auto split: option.splits simp: algebra_simps)
    from split' stock' cause' show ?thesis by blast
  qed
qed

lemma processItems_orderedUnits:
  assumes "processItems its docs ps ois sub = (Inr (ois', sub'), ps')"
  shows "orderedUnits i ois' = orderedUnits i ois + demand i its"
  using assms
proof (induction its arbitrary: docs ps ois sub)
  case Nil
  then show ?case by simp
next
  case (Cons it its)
  from Cons.prems obtain docs1 ps1 ois1 sub1 where
    step: "processItem it docs ps ois sub = Inr (docs1, ps1, ois1, sub1)" and
    rest: "processItems its docs1 ps1 ois1 sub1 = (Inr (ois', sub'), ps')"
    by (auto split: sum.splits)
  from step have "orderedUnits i ois1 = orderedUnits i ois + (if i_id it = i then i_quantity it else 0)"
    by (auto simp: processItem_def orderedUnits_def Let_def split: option.splits if_splits)
  with Cons.IH [OF rest] show ?case by simp
qed

lemma processItems_subtotal:
  assumes "processItems its docs ps ois sub = (Inr (ois', sub'), ps')" and "docs \<subseteq>\<^sub>m ps"
  shows "sub' = sub + sum_list (map (\<lambda>it. case ps (i_id it) of
                                              None \<Rightarrow> 0
                                            | Some p \<Rightarrow> p_price p * i_quantity it) its)"
  using assms
proof (induction its arbitrary: docs ps ois sub)
  case Nil
  then show ?case by simp
next
  case (Cons it its)
  from Cons.prems(1) obtain docs1 ps1 ois1 sub1 where
    step: "processItem it docs ps ois sub = Inr (docs1, ps1, ois1, sub1)" and
    rest: "processItems its docs1 ps1 ois1 sub1 = (Inr (ois', sub'), ps')"
    by (auto split: sum.splits)
  from processItem_Inr [OF step Cons.prems(2)] obtain p where
    p: "docs (i_id it) = Some p" "ps (i_id it) = Some p"
       "docs1 = docs(i_id it \<mapsto> p\<lparr>p_stock := p_stock p - i_quantity it\<rparr>)"
       "ps1 = ps(i_id it \<mapsto> p\<lparr>p_stock := p_stock p - i_quantity it\<rparr>)"
       "sub1 = sub + p_price p * i_quantity it"
    by blast
  have le: "docs1 \<subseteq>\<^sub>m ps1"
    using Cons.prems(2) p by (auto simp: map_le_def)
  have same: "(case ps1 (i_id it') of None \<Rightarrow> 0 | Some p \<Rightarrow> p_price p * i_quantity it')
            = (case ps (i_id it') of None \<Rightarrow> 0 | Some p \<Rightarrow> p_price p * i_quantity it')" for it' :: item
    using p by auto
  have "sub' = sub1 + sum_list (map (\<lambda>it. case ps1 (i_id it) of
                                              None \<Rightarrow> 0
                                            | Some p \<Rightarrow> p_price p * i_quantity it) its)"
    using Cons.IH [OF rest le] .
  then have "sub' = sub1 + sum_list (map (\<lambda>it. case ps (i_id it) of
                                              None \<Rightarrow> 0
                                            | Some p \<Rightarrow> p_price p * i_quantity it) its)"
    by (simp only: same)
  with p(2,5) show ?case by simp
qed

lemma processItem_nonneg:
  assumes "processItem it docs ps ois sub = Inr (docs', ps', ois', sub')"
    and "\<forall>j p. ps j = Some p \<longrightarrow> 0 \<le> p_stock p"
  shows "\<forall>j p. ps' j = Some p \<longrightarrow> 0 \<le> p_stock p"
  using assms
  by (auto simp: processItem_def saveStock_def Let_def split: option.splits if_splits)

lemma processItems_nonneg:
  assumes "processItems its docs ps ois sub = (r, ps')"
    and "\<forall>j p. ps j = Some p \<longrightarrow> 0 \<le> p_stock p"
  shows "\<forall>j p. ps' j = Some p \<longrightarrow> 0 \<le> p_stock p"
  using assms
proof (induction its arbitrary: docs ps ois sub)
  case Nil
  then show ?case by simp
next
  case (Cons it its)
  show ?case
  proof (cases "processItem it docs ps ois sub")
    case (Inl err)
    with Cons.prems show ?thesis by auto
  next
    case (Inr t)
    then obtain docs1 ps1 ois1 sub1 where
      step: "processItem it docs ps ois sub = Inr (docs1, ps1, ois1, sub1)"
      by (cases t) auto
    with Cons.prems(1) have rest: "processItems its docs1 ps1 ois1 sub1 = (r, ps')"
      by simp
    from Cons.IH [OF rest processItem_nonneg [OF step Cons.prems(2)]] show ?thesis .
  qed
qed

lemma findProducts_le: "findProducts its ps \<subseteq>\<^sub>m ps"
  by (simp add: findProducts_def map_le_def restrict_map_def dom_def)

lemma findProducts_agree: "\<forall>it \<in> set its. findProducts its ps (i_id it) = ps (i_id it)"
  by (simp add: findProducts_def)

lemma finishOrder_products: "products (snd (finishOrder md5 e new_id req ois sub d)) = products d"
  by (simp add: finishOrder_def Let_def split: sum.splits)



section \<open>The handler step by step\<close>

lemma finishOrder_error:
  assumes "fst (finishOrder md5 e new_id req ois sub d) = Inl err"
  shows "err = AmountMismatch \<or> err = CouponRequiresAuth \<or> err = CouponInvalid
       \<or> err = NoResponse \<or> err = TypeError \<or> err = OrderValidationFailed"
  using assms
  by (auto simp: finishOrder_def validateOrderAmounts_def handleCoupon_def
      generatePayfastPayload_def Let_def
      split: sum.splits option.splits if_splits)


lemma createOrder_loop_failed:
  assumes "missingFields req = []" and "r_items req \<noteq> []"
    and "processOrderItems (r_items req) (findProducts (r_items req) (products d)) (products d)
         = (Inl err, ps)"
  shows "createOrder md5 e new_id req d = (Inl err, d\<lparr>products := ps\<rparr>)"
  using assms by (simp add: createOrder_def)

lemma createOrder_loop_done:
  assumes "missingFields req = []" and "r_items req \<noteq> []"
    and "processOrderItems (r_items req) (findProducts (r_items req) (products d)) (products d)
         = (Inr (ois, sub), ps)"
  shows "createOrder md5 e new_id req d = finishOrder md5 e new_id req ois sub (d\<lparr>products := ps\<rparr>)"
  using assms by (simp add: createOrder_def)

lemma createOrder_cases:
  obtains (fields) "missingFields req \<noteq> []"
      "createOrder digest e new_id req d = (Inl (MissingFields (missingFields req)), d)"
  | (items) "missingFields req = []" "r_items req = []"
      "createOrder digest e new_id req d = (Inl NoItems, d)"
  | (loop) err ps where "missingFields req = []" "r_items req \<noteq> []"
      "processOrderItems (r_items req) (findProducts (r_items req) (products d)) (products d)
       = (Inl err, ps)"
      "createOrder digest e new_id req d = (Inl err, d\<lparr>products := ps\<rparr>)"
  | (finish) ois sub ps where "missingFields req = []" "r_items req \<noteq> []"
      "processOrderItems (r_items req) (findProducts (r_items req) (products d)) (products d)
       = (Inr (ois, sub), ps)"
      "createOrder digest e new_id req d = finishOrder digest e new_id req ois sub (d\<lparr>products := ps\<rparr>)"
proof (cases "missingFields req = []")
  case False
  then show ?thesis using fields by (simp add: createOrder_def)
next
  case True
  note f = this
  show ?thesis
  proof (cases "r_items req = []")
    case True
    with f show ?thesis using items by (simp add: createOrder_def)
  next
    case False
    obtain r ps where l:
      "processOrderItems (r_items req) (findProducts (r_items req) (products d)) (products d) = (r, ps)"
      by (cases "processOrderItems (r_items req) (findProducts (r_items req) (products d)) (products d)")
    show ?thesis
    proof (cases r)
      case (Inl err)
      with l createOrder_loop_failed [OF f False, of d err ps] show ?thesis
        using loop [OF f False] by simp
    next
      case (Inr t)
      then obtain ois sub where "r = Inr (ois, sub)" by (cases t) auto
      with l createOrder_loop_done [OF f False, of d ois sub ps] show ?thesis
        using finish [OF f False] by simp
    qed
  qed
qed

lemma processOrderItems_error_kind:
  assumes "processOrderItems its docs ps = (Inl err, ps')"
  shows "(\<exists>x. err = ProductNotFound x) \<or> (\<exists>n a. err = InsufficientStock n a)"
proof -
  have "processItems its docs ps ois sub = (Inl err, ps')
        \<Longrightarrow> (\<exists>x. err = ProductNotFound x) \<or> (\<exists>n a. err = InsufficientStock n a)" for ois sub
  proof (induction its arbitrary: docs ps ois sub)
    case Nil
    then show ?case by simp
  next
    case (Cons it its)
    show ?case
    proof (cases "processItem it docs ps ois sub")
      case (Inl err1)
      with Cons.prems have "err1 = err" by simp
      with processItem_Inl [OF Inl] show ?thesis by blast
    next
      case (Inr t)
      then obtain docs1 ps1 ois1 sub1 where
        "processItem it docs ps ois sub = Inr (docs1, ps1, ois1, sub1)"
        by (cases t) auto
      with Cons.prems have "processItems its docs1 ps1 ois1 sub1 = (Inl err, ps')"
        by simp
      from Cons.IH [OF this] show ?thesis .
    qed
  qed
  with assms show ?thesis
    by (simp add: processOrderItems_def)
qed

lemma finishOrder_guest_coupon:
  assumes "truthy_str (r_couponCode req)" and "r_user req = None"
  shows "finishOrder md5 e new_id req ois sub d
         = (if validateOrderAmounts req sub = Inr () then (Inl CouponRequiresAuth, d)
            else (Inl AmountMismatch, d))"
  using assms
  by (auto simp: finishOrder_def validateOrderAmounts_def handleCoupon_def truthy_obj_def
      split: option.splits sum.splits)

lemma ex_processOrderItems:
  "processOrderItems (r_items ex_request) (findProducts (r_items ex_request) (products ex_db))
     (products ex_db)
   = (Inr ([\<lparr>oi_product = idA, oi_name = ''Flask'', oi_quantity = 2, oi_price = 50,
              oi_image = None\<rparr>], 100),
      [idA \<mapsto> \<lparr>p_name = ''Flask'', p_price = 50, p_stock = 1, p_image = None\<rparr>,
       idB \<mapsto> \<lparr>p_name = ''Lid'', p_price = 20, p_stock = 0, p_image = None\<rparr>])"
  by (auto simp: processOrderItems_def processItem_def findProducts_def saveStock_def
      ex_request_def ex_db_def idA_def idB_def Let_def)

lemma ex_request_two_fields: "missingFields ex_request_two = []"
  by (simp add: missingFields_def ex_request_two_def ex_request_def truthy_str_def
      truthy_num_def truthy_obj_def)

lemma ex_request_two_loop:
  "processOrderItems (r_items ex_request_two)
     (findProducts (r_items ex_request_two) (products ex_db)) (products ex_db)
   = (Inl (InsufficientStock ''Lid'' 0),
      [idA \<mapsto> \<lparr>p_name = ''Flask'', p_price = 50, p_stock = 1, p_image = None\<rparr>,
       idB \<mapsto> \<lparr>p_name = ''Lid'', p_price = 20, p_stock = 0, p_image = None\<rparr>])"
  by (auto simp: processOrderItems_def processItem_def findProducts_def saveStock_def
      ex_request_two_def ex_request_def ex_db_def idA_def idB_def Let_def)

lemma ex_request_two_result:
  "createOrder ex_md5 ex_env idO ex_request_two ex_db
   = (Inl (InsufficientStock ''Lid'' 0),
      ex_db\<lparr>products := [idA \<mapsto> \<lparr>p_name = ''Flask'', p_price = 50, p_stock = 1, p_image = None\<rparr>,
                          idB \<mapsto> \<lparr>p_name = ''Lid'', p_price = 20, p_stock = 0, p_image = None\<rparr>]\<rparr>)"
  by (rule createOrder_loop_failed [OF ex_request_two_fields _ ex_request_two_loop])
     (simp add: ex_request_two_def)

section \<open>Claims on order creation\<close>

text \<open>
  Claim C10.  The required-field check of \<^verbatim>\<open>createOrder\<close> treats a falsy value as
  missing: a request whose \<^verbatim>\<open>subtotal\<close>, \<^verbatim>\<open>shippingCost\<close> or \<^verbatim>\<open>totalAmount\<close> is
  the number 0 is rejected with the missing-required-fields error, which names that field,
  and the database is left as it was.  So no order with shipping cost 0 is created.
\<close>

theorem createOrder_rejects_zero_amount:
  assumes "r_subtotal req = Some 0 \<or> r_shippingCost req = Some 0 \<or> r_totalAmount req = Some 0"
  shows "createOrder md5 e new_id req d = (Inl (MissingFields (missingFields req)), d)
       \<and> missingFields req \<noteq> []
       \<and> (r_subtotal req = Some 0 \<longrightarrow> ''subtotal'' \<in> set (missingFields req))
       \<and> (r_shippingCost req = Some 0 \<longrightarrow> ''shippingCost'' \<in> set (missingFields req))
       \<and> (r_totalAmount req = Some 0 \<longrightarrow> ''totalAmount'' \<in> set (missingFields req))"
proof -
  have sub: "r_subtotal req = Some 0 \<Longrightarrow> ''subtotal'' \<in> set (missingFields req)"
    by (simp add: missingFields_def truthy_num_def)
  have ship: "r_shippingCost req = Some 0 \<Longrightarrow> ''shippingCost'' \<in> set (missingFields req)"
    by (simp add: missingFields_def truthy_num_def)
  have tot: "r_totalAmount req = Some 0 \<Longrightarrow> ''totalAmount'' \<in> set (missingFields req)"
    by (simp add: missingFields_def truthy_num_def)
  from assms sub ship tot have ne: "missingFields req \<noteq> []"
    by fastforce
  then have "createOrder md5 e new_id req d = (Inl (MissingFields (missingFields req)), d)"
    by (simp add: createOrder_def)
  with ne sub ship tot show ?thesis by blast
qed

theorem createOrder_rejects_zero_amount_witness:
  "createOrder ex_md5 ex_env idO (ex_request\<lparr>r_shippingCost := Some 0, r_totalAmount := Some 95\<rparr>) ex_db
   = (Inl (MissingFields [''shippingCost'']), ex_db)"
proof -
  let ?req = "ex_request\<lparr>r_shippingCost := Some 0, r_totalAmount := Some 95\<rparr>"
  have zero: "r_subtotal ?req = Some 0 \<or> r_shippingCost ?req = Some 0 \<or> r_totalAmount ?req = Some 0"
    by simp
  have missing: "missingFields ?req = [''shippingCost'']"
    by (simp add: missingFields_def ex_request_def truthy_str_def truthy_num_def truthy_obj_def)
  from createOrder_rejects_zero_amount [OF zero, of ex_md5 ex_env idO ex_db] missing
  show ?thesis by simp
qed



text \<open>
  What a created order stores: the four amounts of the request as they were declared; of
  these the total is the one tied to the stored prices.
\<close>

lemma createOrder_persisted_amounts:
  assumes "createOrder md5 e new_id req d = (Inr (i, ord), d')"
  shows "o_subtotal ord = r_subtotal req \<and> o_shippingCost ord = r_shippingCost req
       \<and> o_discount ord = r_discount req \<and> o_totalAmount ord = r_totalAmount req
       \<and> (\<exists>shippingCost discount.
             r_shippingCost req = Some shippingCost \<and> r_discount req = Some discount
             \<and> r_totalAmount req
               = Some (sum_list (map (\<lambda>it. case products d (i_id it) of
                                               None \<Rightarrow> 0
                                             | Some p \<Rightarrow> p_price p * i_quantity it)
                                      (r_items req))
                       + shippingCost - discount))"
proof -
  from assms obtain ois sub ps where
    loop: "processOrderItems (r_items req) (findProducts (r_items req) (products d)) (products d)
           = (Inr (ois, sub), ps)" and
    fin: "finishOrder md5 e new_id req ois sub (d\<lparr>products := ps\<rparr>) = (Inr (i, ord), d')"
    by (cases rule: createOrder_cases [where req = req and digest = md5 and e = e
          and new_id = new_id and d = d]) auto
  from loop have "processItems (r_items req) (findProducts (r_items req) (products d))
        (products d) [] 0 = (Inr (ois, sub), ps)"
    by (simp add: processOrderItems_def)
  from processItems_subtotal [OF this findProducts_le]
  have sub: "sub = sum_list (map (\<lambda>it. case products d (i_id it) of
                                               None \<Rightarrow> 0
                                             | Some p \<Rightarrow> p_price p * i_quantity it)
                                      (r_items req))"
    by simp
  from fin have ok: "validateOrderAmounts req sub = Inr ()"
    by (auto simp: finishOrder_def split: sum.splits)
  from fin have stored: "o_subtotal ord = r_subtotal req \<and> o_shippingCost ord = r_shippingCost req
       \<and> o_discount ord = (case r_discount req of None \<Rightarrow> Some 0 | Some x \<Rightarrow> Some x)
       \<and> o_totalAmount ord = r_totalAmount req"
    by (auto simp: finishOrder_def createOrderDocument_def generatePayfastPayload_def Let_def
        split: sum.splits if_splits option.splits)
  from ok obtain shippingCost discount where
    "r_shippingCost req = Some shippingCost" "r_discount req = Some discount"
    "r_totalAmount req = Some (sub + shippingCost - discount)"
    by (auto simp: validateOrderAmounts_def split: option.splits if_splits)
  with stored sub show ?thesis by simp
qed

text \<open>
  Claim C3 asks that a persisted order satisfy
  \<^verbatim>\<open>totalAmount == subtotal + shippingCost - discount\<close> with the subtotal recomputed from
  the stored prices.  \<^verbatim>\<open>createOrder\<close> on the example shop, for two flasks at 50 each and a
  request that declares subtotal 1, shipping 10, discount 5 and total 105: the total passes
  \<^verbatim>\<open>validateOrderAmounts\<close> (100 + 10 - 5), and the order is stored with the declared
  subtotal 1, so that 105 is not 1 + 10 - 5 on the persisted record.
\<close>

theorem persisted_subtotal_is_the_declared_one:
  "\<exists>ord d'. createOrder ex_md5 ex_env idO (ex_request\<lparr>r_subtotal := Some 1\<rparr>) ex_db
              = (Inr (idO, ord), d')
     \<and> orders d' idO = Some ord
     \<and> o_items ord = [\<lparr>oi_product = idA, oi_name = ''Flask'', oi_quantity = 2, oi_price = 50,
                        oi_image = None\<rparr>]
     \<and> o_subtotal ord = Some 1 \<and> o_shippingCost ord = Some 10 \<and> o_discount ord = Some 5
     \<and> o_totalAmount ord = Some 105
     \<and> (105::int) \<noteq> 1 + 10 - 5"
proof -
  let ?req = "ex_request\<lparr>r_subtotal := Some 1\<rparr>"
  have fields: "missingFields ?req = []"
    by (simp add: missingFields_def ex_request_def truthy_str_def truthy_num_def truthy_obj_def)
  have items: "r_items ?req \<noteq> []"
    by (simp add: ex_request_def)
  have loop: "processOrderItems (r_items ?req) (findProducts (r_items ?req) (products ex_db))
       (products ex_db)
     = (Inr ([\<lparr>oi_product = idA, oi_name = ''Flask'', oi_quantity = 2, oi_price = 50,
              oi_image = None\<rparr>], 100),
      [idA \<mapsto> \<lparr>p_name = ''Flask'', p_price = 50, p_stock = 1, p_image = None\<rparr>,
       idB \<mapsto> \<lparr>p_name = ''Lid'', p_price = 20, p_stock = 0, p_image = None\<rparr>])"
    using ex_processOrderItems by simp
  show ?thesis
    unfolding createOrder_loop_done [OF fields items loop]
    by (simp add: finishOrder_def validateOrderAmounts_def handleCoupon_def
        createOrderDocument_def orderValid_def truthy_str_def ex_request_def Let_def)
qed

text \<open>
  Claim C2, as stated, fails.  A request for two flasks (3 in stock) and one lid (0 in
  stock) ends with \<open>InsufficientStock\<close> for the lid, and the stock of flasks is 1 after the
  failed attempt, not 3: the decrement of the earlier line stays.
\<close>

theorem failed_line_leaves_earlier_decrement_counterexample:
  "fst (createOrder ex_md5 ex_env idO ex_request_two ex_db) = Inl (InsufficientStock ''Lid'' 0)
   \<and> map_option p_stock (products ex_db idA) = Some 3
   \<and> map_option p_stock (products (snd (createOrder ex_md5 ex_env idO ex_request_two ex_db)) idA)
     = Some 1"
  by (simp add: ex_request_two_result) (simp add: ex_db_def idA_def idB_def)

text \<open>
  Claim C2, amended.  \<^verbatim>\<open>processOrderItems\<close> decrements and saves line by line and has no
  compensating increment.  When \<^verbatim>\<open>createOrder\<close> ends because a line fails (its product is
  not found, or the stock left is less than the quantity asked), the lines before it stay
  applied: every product's stock is its stock before the attempt minus the quantities the
  earlier lines asked of it, and orders and coupons are unchanged.  The failing line is the
  first whose product is absent or whose stock, after the earlier lines, is too low; when
  no line precedes it, the stock of every product is as before the attempt.
\<close>

theorem failed_line_keeps_earlier_decrements:
  assumes "createOrder md5 e new_id req d = (Inl err, d')"
    and "err = ProductNotFound x \<or> err = InsufficientStock n a"
  shows "\<exists>pre it post. r_items req = pre @ it # post
     \<and> (\<forall>i. products d' i
            = map_option (\<lambda>p. p\<lparr>p_stock := p_stock p - demand i pre\<rparr>) (products d i))
     \<and> (case products d (i_id it) of
          None \<Rightarrow> err = ProductNotFound (i_id it)
        | Some p \<Rightarrow> p_stock p - demand (i_id it) pre < i_quantity it
            \<and> err = InsufficientStock (p_name p) (p_stock p - demand (i_id it) pre))
     \<and> orders d' = orders d \<and> coupons d' = coupons d"
proof -
  from assms have fields: "missingFields req = []" and items: "r_items req \<noteq> []"
    by (auto simp: createOrder_def split: if_splits)
  obtain r ps where loop:
    "processOrderItems (r_items req) (findProducts (r_items req) (products d)) (products d) = (r, ps)"
    by (cases "processOrderItems (r_items req) (findProducts (r_items req) (products d)) (products d)")
  show ?thesis
  proof (cases r)
    case (Inl err1)
    with createOrder_loop_failed [OF fields items, of d err1 ps] loop assms(1)
    have e: "err1 = err" and d': "d' = d\<lparr>products := ps\<rparr>"
      by simp_all
    from loop Inl e have "processItems (r_items req) (findProducts (r_items req) (products d))
        (products d) [] 0 = (Inl err, ps)"
      by (simp add: processOrderItems_def)
    from processItems_failure [OF this findProducts_le findProducts_agree]
    show ?thesis
      using d' by simp
  next
    case (Inr t)
    then obtain ois sub where t: "r = Inr (ois, sub)"
      by (cases t) auto
    with createOrder_loop_done [OF fields items, of d ois sub ps] loop assms(1)
    have "fst (finishOrder md5 e new_id req ois sub (d\<lparr>products := ps\<rparr>)) = Inl err"
      by simp
    from finishOrder_error [OF this] assms(2) show ?thesis
      by auto
  qed
qed

theorem failed_line_keeps_earlier_decrements_witness:
  "createOrder ex_md5 ex_env idO ex_request_two ex_db
     = (Inl (InsufficientStock ''Lid'' 0), snd (createOrder ex_md5 ex_env idO ex_request_two ex_db))
   \<and> (\<exists>pre it post. r_items ex_request_two = pre @ it # post
     \<and> (\<forall>i. products (snd (createOrder ex_md5 ex_env idO ex_request_two ex_db)) i
            = map_option (\<lambda>p. p\<lparr>p_stock := p_stock p - demand i pre\<rparr>) (products ex_db i))
     \<and> (case products ex_db (i_id it) of
          None \<Rightarrow> InsufficientStock ''Lid'' 0 = ProductNotFound (i_id it)
        | Some p \<Rightarrow> p_stock p - demand (i_id it) pre < i_quantity it
            \<and> InsufficientStock ''Lid'' 0
              = InsufficientStock (p_name p) (p_stock p - demand (i_id it) pre))
     \<and> orders (snd (createOrder ex_md5 ex_env idO ex_request_two ex_db)) = orders ex_db
     \<and> coupons (snd (createOrder ex_md5 ex_env idO ex_request_two ex_db)) = coupons ex_db)"
proof -
  have run: "createOrder ex_md5 ex_env idO ex_request_two ex_db
     = (Inl (InsufficientStock ''Lid'' 0), snd (createOrder ex_md5 ex_env idO ex_request_two ex_db))"
    by (simp add: ex_request_two_result)
  have kind: "InsufficientStock ''Lid'' 0 = ProductNotFound idB
            \<or> InsufficientStock ''Lid'' 0 = InsufficientStock ''Lid'' 0"
    by simp
  from failed_line_keeps_earlier_decrements [OF run kind] run show ?thesis
    by blast
qed

text \<open>
  Claim C7, as stated, fails.  A guest's request with coupon code \<^verbatim>\<open>SAVE10\<close> for two
  flasks ends with \<open>CouponRequiresAuth\<close>, and the stock of flasks is 1 after it, not 3:
  \<^verbatim>\<open>handleCoupon\<close> runs after \<^verbatim>\<open>processOrderItems\<close> has saved the decrements.
\<close>

theorem guest_coupon_decrements_stock_counterexample:
  "r_user ex_request_coupon = None \<and> r_couponCode ex_request_coupon = Some ''SAVE10''
   \<and> fst (createOrder ex_md5 ex_env idO ex_request_coupon ex_db) = Inl CouponRequiresAuth
   \<and> map_option p_stock (products ex_db idA) = Some 3
   \<and> map_option p_stock (products (snd (createOrder ex_md5 ex_env idO ex_request_coupon ex_db)) idA)
     = Some 1"
proof -
  have fields: "missingFields ex_request_coupon = []"
    by (simp add: missingFields_def ex_request_coupon_def ex_request_def truthy_str_def
        truthy_num_def truthy_obj_def)
  have items: "r_items ex_request_coupon \<noteq> []"
    by (simp add: ex_request_coupon_def ex_request_def)
  have loop: "processOrderItems (r_items ex_request_coupon)
       (findProducts (r_items ex_request_coupon) (products ex_db)) (products ex_db)
     = (Inr ([\<lparr>oi_product = idA, oi_name = ''Flask'', oi_quantity = 2, oi_price = 50,
              oi_image = None\<rparr>], 100),
      [idA \<mapsto> \<lparr>p_name = ''Flask'', p_price = 50, p_stock = 1, p_image = None\<rparr>,
       idB \<mapsto> \<lparr>p_name = ''Lid'', p_price = 20, p_stock = 0, p_image = None\<rparr>])"
    using ex_processOrderItems by (simp add: ex_request_coupon_def)
  have guest: "truthy_str (r_couponCode ex_request_coupon)" "r_user ex_request_coupon = None"
    by (simp_all add: ex_request_coupon_def ex_request_def truthy_str_def)
  have amounts: "validateOrderAmounts ex_request_coupon 100 = Inr ()"
    by (simp add: validateOrderAmounts_def ex_request_coupon_def ex_request_def)
  show ?thesis
    unfolding createOrder_loop_done [OF fields items loop] finishOrder_guest_coupon [OF guest]
    using amounts
    by (simp add: ex_request_coupon_def ex_request_def ex_db_def idA_def idB_def)
qed

text \<open>
  Claim C7, amended.  A request that carries a non-empty coupon code and no authenticated
  user never creates an order.  It ends with \<open>CouponRequiresAuth\<close> exactly when it passes
  the checks that come first (required fields, a non-empty list of lines, every line in
  stock, the amount check); then the stock of every product has been decremented by the
  quantities the request asked of it and is not restored.  A request that fails an earlier
  check ends with that check's error.
\<close>

theorem guest_coupon_never_creates:
  assumes "truthy_str (r_couponCode req)" and "r_user req = None"
    and "createOrder md5 e new_id req d = (r, d')"
  shows "(\<exists>err. r = Inl err) \<and> orders d' = orders d
     \<and> (r = Inl CouponRequiresAuth
          \<longleftrightarrow> missingFields req = [] \<and> r_items req \<noteq> []
              \<and> (\<exists>ois sub ps.
                    processOrderItems (r_items req) (findProducts (r_items req) (products d))
                      (products d) = (Inr (ois, sub), ps)
                    \<and> validateOrderAmounts req sub = Inr ()))
     \<and> (r = Inl CouponRequiresAuth
          \<longrightarrow> (\<forall>i. products d' i
                  = map_option (\<lambda>p. p\<lparr>p_stock := p_stock p - demand i (r_items req)\<rparr>)
                      (products d i)))"
proof (cases rule: createOrder_cases [where req = req and digest = md5 and e = e
      and new_id = new_id and d = d])
  case fields
  with assms(3) show ?thesis by auto
next
  case items
  with assms(3) show ?thesis by auto
next
  case (loop err ps)
  with assms(3) processOrderItems_error_kind [OF loop(3)] show ?thesis by auto
next
  case (finish ois sub ps)
  note fin = finishOrder_guest_coupon [OF assms(1,2), of md5 e new_id ois sub "d\<lparr>products := ps\<rparr>"]
  have mismatch: "validateOrderAmounts req sub \<noteq> Inr () \<Longrightarrow> validateOrderAmounts req sub = Inl AmountMismatch"
    by (auto simp: validateOrderAmounts_def split: option.splits)
  have "processItems (r_items req) (findProducts (r_items req) (products d)) (products d) [] 0
        = (Inr (ois, sub), ps)"
    using finish(3) by (simp add: processOrderItems_def)
  from processItems_success [OF this findProducts_le]
  have stock: "ps i = map_option (\<lambda>p. p\<lparr>p_stock := p_stock p - demand i (r_items req)\<rparr>)
                        (products d i)" for i .
  show ?thesis
  proof (cases "validateOrderAmounts req sub = Inr ()")
    case True
    with finish fin assms(3) have "r = Inl CouponRequiresAuth" "d' = d\<lparr>products := ps\<rparr>"
      by simp_all
    with finish True stock show ?thesis by auto
  next
    case False
    with finish fin assms(3) have "r = Inl AmountMismatch" "d' = d\<lparr>products := ps\<rparr>"
      by simp_all
    with finish False show ?thesis by auto
  qed
qed

theorem guest_coupon_never_creates_witness:
  "truthy_str (r_couponCode ex_request_coupon) \<and> r_user ex_request_coupon = None
   \<and> fst (createOrder ex_md5 ex_env idO ex_request_coupon ex_db) = Inl CouponRequiresAuth
   \<and> orders (snd (createOrder ex_md5 ex_env idO ex_request_coupon ex_db)) = orders ex_db
   \<and> (\<forall>i. products (snd (createOrder ex_md5 ex_env idO ex_request_coupon ex_db)) i
          = map_option (\<lambda>p. p\<lparr>p_stock := p_stock p - demand i (r_items ex_request_coupon)\<rparr>)
              (products ex_db i))"
proof -
  have guest: "truthy_str (r_couponCode ex_request_coupon)" "r_user ex_request_coupon = None"
    by (simp_all add: ex_request_coupon_def ex_request_def truthy_str_def)
  have run: "createOrder ex_md5 ex_env idO ex_request_coupon ex_db
    = (fst (createOrder ex_md5 ex_env idO ex_request_coupon ex_db),
       snd (createOrder ex_md5 ex_env idO ex_request_coupon ex_db))"
    by simp
  have fields: "missingFields ex_request_coupon = []"
    by (simp add: missingFields_def ex_request_coupon_def ex_request_def truthy_str_def
        truthy_num_def truthy_obj_def)
  have items: "r_items ex_request_coupon \<noteq> []"
    by (simp add: ex_request_coupon_def ex_request_def)
  have loop: "processOrderItems (r_items ex_request_coupon)
       (findProducts (r_items ex_request_coupon) (products ex_db)) (products ex_db)
     = (Inr ([\<lparr>oi_product = idA, oi_name = ''Flask'', oi_quantity = 2, oi_price = 50,
              oi_image = None\<rparr>], 100),
      [idA \<mapsto> \<lparr>p_name = ''Flask'', p_price = 50, p_stock = 1, p_image = None\<rparr>,
       idB \<mapsto> \<lparr>p_name = ''Lid'', p_price = 20, p_stock = 0, p_image = None\<rparr>])"
    using ex_processOrderItems by (simp add: ex_request_coupon_def)
  have amounts: "validateOrderAmounts ex_request_coupon 100 = Inr ()"
    by (simp add: validateOrderAmounts_def ex_request_coupon_def ex_request_def)
  from guest_coupon_never_creates [OF guest run] fields items loop amounts guest
  show ?thesis by blast
qed

section \<open>Claims on cancellation\<close>

lemma orderedUnits_Nil [simp]: "orderedUnits i [] = 0"
  by (simp add: orderedUnits_def)

lemma orderedUnits_Cons [simp]:
  "orderedUnits i (it # its) = (if oi_product it = i then oi_quantity it else 0) + orderedUnits i its"
  by (simp add: orderedUnits_def)

lemma restoreStock_products:
  "restoreStock its ps i = map_option (\<lambda>p. p\<lparr>p_stock := p_stock p + orderedUnits i its\<rparr>) (ps i)"
proof (induction its arbitrary: ps)
  case Nil
  show ?case by (cases "ps i") auto
next
  case (Cons it its)
  show ?case
    by (cases "ps i"; cases "ps (oi_product it)") (auto simp: Cons.IH algebra_simps)
qed

lemma updateOrderStatus_cancel:
  assumes "orders d order_id = Some ord"
  shows "products (snd (updateOrderStatus now order_id ''Cancelled'' tid d))
         = restoreStock (o_items ord) (products d)"
    and "map_option o_status (orders (snd (updateOrderStatus now order_id ''Cancelled'' tid d)) order_id)
         = Some ''Cancelled''"
    and "map_option o_items (orders (snd (updateOrderStatus now order_id ''Cancelled'' tid d)) order_id)
         = Some (o_items ord)"
  using assms
  by (simp_all add: updateOrderStatus_def handleStatusChange_def validStatuses_def Let_def)

lemma finishOrder_created:
  assumes "finishOrder md5 e new_id req ois sub d = (Inr (i, ord), d')"
  shows "i = new_id \<and> o_items ord = ois \<and> orders d' new_id = Some ord \<and> products d' = products d"
  using assms
  by (auto simp: finishOrder_def createOrderDocument_def generatePayfastPayload_def Let_def
      split: sum.splits if_splits option.splits)

lemma createOrder_created:
  assumes "createOrder md5 e new_id req d = (Inr (i, ord), d')"
  shows "orders d' new_id = Some ord"
    and "products d' j = map_option (\<lambda>p. p\<lparr>p_stock := p_stock p - demand j (r_items req)\<rparr>)
                           (products d j)"
    and "orderedUnits j (o_items ord) = demand j (r_items req)"
proof -
  from assms obtain ois sub ps where
    loop: "processOrderItems (r_items req) (findProducts (r_items req) (products d)) (products d)
           = (Inr (ois, sub), ps)" and
    fin: "finishOrder md5 e new_id req ois sub (d\<lparr>products := ps\<rparr>) = (Inr (i, ord), d')"
    by (cases rule: createOrder_cases [where req = req and digest = md5 and e = e
          and new_id = new_id and d = d]) auto
  from loop have items: "processItems (r_items req) (findProducts (r_items req) (products d))
        (products d) [] 0 = (Inr (ois, sub), ps)"
    by (simp add: processOrderItems_def)
  from finishOrder_created [OF fin] have
    c: "o_items ord = ois" "orders d' new_id = Some ord" "products d' = ps"
    by simp_all
  show "orders d' new_id = Some ord" by (rule c(2))
  show "products d' j = map_option (\<lambda>p. p\<lparr>p_stock := p_stock p - demand j (r_items req)\<rparr>)
                           (products d j)"
    using processItems_success [OF items findProducts_le, of j] c(3) by simp
  show "orderedUnits j (o_items ord) = demand j (r_items req)"
    using processItems_orderedUnits [OF items, of j] c(1) by simp
qed

lemma ex_createOrder:
  "createOrder ex_md5 ex_env idO ex_request ex_db
   = (Inr (idO, ex_order),
      \<lparr>products = [idA \<mapsto> \<lparr>p_name = ''Flask'', p_price = 50, p_stock = 1, p_image = None\<rparr>,
                   idB \<mapsto> \<lparr>p_name = ''Lid'', p_price = 20, p_stock = 0, p_image = None\<rparr>],
       orders = [idO \<mapsto> ex_order],
       coupons = []\<rparr>)"
proof -
  have fields: "missingFields ex_request = []"
    by (simp add: missingFields_def ex_request_def truthy_str_def truthy_num_def truthy_obj_def)
  have items: "r_items ex_request \<noteq> []"
    by (simp add: ex_request_def)
  show ?thesis
    unfolding createOrder_loop_done [OF fields items ex_processOrderItems]
    by (simp add: finishOrder_def validateOrderAmounts_def handleCoupon_def
        createOrderDocument_def buildShippingAddress_def orderValid_def truthy_str_def
        str_of_def ex_request_def ex_order_def ex_db_def Let_def)
qed

lemma ex_db_ordered_eq:
  "ex_db_ordered
   = \<lparr>products = [idA \<mapsto> \<lparr>p_name = ''Flask'', p_price = 50, p_stock = 1, p_image = None\<rparr>,
                  idB \<mapsto> \<lparr>p_name = ''Lid'', p_price = 20, p_stock = 0, p_image = None\<rparr>],
      orders = [idO \<mapsto> ex_order],
      coupons = []\<rparr>"
  by (simp add: ex_db_ordered_def ex_createOrder)

text \<open>
  Claim C6, as stated, fails.  After the example order of two flasks the stock is 1.  The
  first \<^verbatim>\<open>Cancelled\<close> update restores it to 3; a second \<^verbatim>\<open>Cancelled\<close> update of the
  order, which is already cancelled, raises it to 5.
\<close>

theorem cancelling_twice_restocks_twice_counterexample:
  "map_option p_stock (products ex_db idA) = Some 3
   \<and> map_option p_stock (products ex_db_ordered idA) = Some 1
   \<and> map_option o_status (orders (snd (updateOrderStatus ''2026-01-01T10:00:00.000Z'' idO
        ''Cancelled'' None ex_db_ordered)) idO) = Some ''Cancelled''
   \<and> map_option p_stock (products (snd (updateOrderStatus ''2026-01-01T10:00:00.000Z'' idO
        ''Cancelled'' None ex_db_ordered)) idA) = Some 3
   \<and> map_option p_stock (products (snd (updateOrderStatus ''2026-01-01T10:05:00.000Z'' idO
        ''Cancelled'' None (snd (updateOrderStatus ''2026-01-01T10:00:00.000Z'' idO
        ''Cancelled'' None ex_db_ordered)))) idA) = Some 5"
  by (simp add: ex_db_ordered_eq updateOrderStatus_def handleStatusChange_def validStatuses_def
      truthy_str_def ex_order_def Let_def)
     (simp add: ex_db_def idA_def idB_def)

text \<open>
  Claim C6, amended.  A \<^verbatim>\<open>Cancelled\<close> status update of an existing order adds to the
  stock of every product the quantity the order's lines hold of it, whatever the status of
  the order was: a second update adds the same quantities again.  The quantities are those
  decremented at creation: one cancellation of an order just created gives every product
  the stock it had before the order.
\<close>

theorem cancel_restocks_on_every_application:
  assumes "orders d order_id = Some ord"
    and "createOrder md5 e new_id req d0 = (Inr (i, ord0), d1)"
  shows "(\<forall>j. products (snd (updateOrderStatus now order_id ''Cancelled'' tid d)) j
            = map_option (\<lambda>p. p\<lparr>p_stock := p_stock p + orderedUnits j (o_items ord)\<rparr>)
                (products d j))
       \<and> (\<forall>j. products (snd (updateOrderStatus now' order_id ''Cancelled'' tid'
                  (snd (updateOrderStatus now order_id ''Cancelled'' tid d)))) j
            = map_option (\<lambda>p. p\<lparr>p_stock := p_stock p + 2 * orderedUnits j (o_items ord)\<rparr>)
                (products d j))
       \<and> products (snd (updateOrderStatus now new_id ''Cancelled'' tid d1)) = products d0"
proof -
  let ?d' = "snd (updateOrderStatus now order_id ''Cancelled'' tid d)"
  have once: "products ?d' j
            = map_option (\<lambda>p. p\<lparr>p_stock := p_stock p + orderedUnits j (o_items ord)\<rparr>)
                (products d j)" for j
    by (simp add: updateOrderStatus_cancel(1) [OF assms(1)] restoreStock_products)
  from updateOrderStatus_cancel(3) [OF assms(1), of now tid] obtain ord' where
    ord': "orders ?d' order_id = Some ord'" "o_items ord' = o_items ord"
    by auto
  have twice: "products (snd (updateOrderStatus now' order_id ''Cancelled'' tid' ?d')) j
            = map_option (\<lambda>p. p\<lparr>p_stock := p_stock p + 2 * orderedUnits j (o_items ord)\<rparr>)
                (products d j)" for j
    by (cases "products d j")
       (simp_all add: updateOrderStatus_cancel(1) [OF ord'(1)] restoreStock_products ord'(2) once)
  have "products (snd (updateOrderStatus now new_id ''Cancelled'' tid d1)) j = products d0 j" for j
    by (cases "products d0 j")
       (simp_all add: updateOrderStatus_cancel(1) [OF createOrder_created(1) [OF assms(2)]]
          restoreStock_products createOrder_created(2,3) [OF assms(2)])
  then have round: "products (snd (updateOrderStatus now new_id ''Cancelled'' tid d1)) = products d0"
    by (rule ext)
  from once twice round show ?thesis by blast
qed

theorem cancel_restocks_on_every_application_witness:
  "orders ex_db_ordered idO = Some ex_order
   \<and> createOrder ex_md5 ex_env idO ex_request ex_db = (Inr (idO, ex_order), ex_db_ordered)
   \<and> products (snd (updateOrderStatus ''2026-01-01T10:00:00.000Z'' idO ''Cancelled'' None
        ex_db_ordered)) = products ex_db
   \<and> products (snd (updateOrderStatus ''2026-01-01T10:05:00.000Z'' idO ''Cancelled'' None
        (snd (updateOrderStatus ''2026-01-01T10:00:00.000Z'' idO ''Cancelled'' None
           ex_db_ordered)))) idA
     = Some \<lparr>p_name = ''Flask'', p_price = 50, p_stock = 5, p_image = None\<rparr>"
proof -
  have stored: "orders ex_db_ordered idO = Some ex_order"
    by (simp add: ex_db_ordered_eq)
  have created: "createOrder ex_md5 ex_env idO ex_request ex_db = (Inr (idO, ex_order), ex_db_ordered)"
    by (simp add: ex_db_ordered_eq ex_createOrder)
  have stock: "products ex_db_ordered idA
     = Some \<lparr>p_name = ''Flask'', p_price = 50, p_stock = 1, p_image = None\<rparr>"
    by (simp add: ex_db_ordered_eq idA_def idB_def)
  have units: "orderedUnits idA (o_items ex_order) = 2"
    by (simp add: ex_order_def)
  from cancel_restocks_on_every_application [OF stored created,
      of "''2026-01-01T10:00:00.000Z''" None "''2026-01-01T10:05:00.000Z''" None]
    stored created stock units
  show ?thesis by simp
qed

section \<open>Claims on payment notifications\<close>

lemma updateOrderFromPayment_again:
  "updateOrderFromPayment t2 (updateOrderFromPayment t1 ord data) data
   = updateOrderFromPayment t2 ord data"
  by (simp add: updateOrderFromPayment_def Let_def)

lemma handlePayfastNotification_products:
  "products (snd (handlePayfastNotification md5 e now body d)) = products d"
  by (simp add: handlePayfastNotification_def Let_def split: option.splits)

lemma handlePayfastNotification_again:
  "snd (handlePayfastNotification md5 e t2 body (snd (handlePayfastNotification md5 e t1 body d)))
   = snd (handlePayfastNotification md5 e t2 body d)"
  by (simp add: handlePayfastNotification_def Let_def updateOrderFromPayment_again
      split: option.splits)

lemma deliveries_last:
  "ts \<noteq> [] \<Longrightarrow> deliveries md5 e ts body d
     = snd (handlePayfastNotification md5 e (last ts) body d)"
proof (induction ts arbitrary: d)
  case Nil
  then show ?case by simp
next
  case (Cons t ts)
  show ?case
  proof (cases ts)
    case Nil
    then show ?thesis by simp
  next
    case (Cons t' rest)
    then have "ts \<noteq> []" by simp
    from Cons.IH [OF this] show ?thesis
      using Cons by (simp add: handlePayfastNotification_again)
  qed
qed

lemma ex_failed_body_parts:
  "map_of ex_failed_body ''signature'' = Some (ex_md5 (verifyString ex_env ex_failed_data))"
  "AList.delete ''signature'' ex_failed_body = ex_failed_data"
  by (simp_all add: ex_failed_body_def ex_failed_data_def AList.delete_eq)

lemma ex_failed_delivery:
  "handlePayfastNotification ex_md5 ex_env now ex_failed_body ex_db_ordered
   = (200, ex_db_ordered\<lparr>orders := [idO \<mapsto> ex_order
        \<lparr>o_paymentResult := Some \<lparr>pr_id = Some ''1089250'', pr_status = Some ''FAILED'',
                                  pr_update_time = Some now, pr_rawData = Some ex_failed_data,
                                  pr_redirectUrl = None\<rparr>,
         o_status := ''Cancelled''\<rparr>]\<rparr>)"
  by (simp add: handlePayfastNotification_def ex_failed_body_parts verifyPayfastSignature_def
      Let_def)
     (simp add: ex_failed_data_def ex_db_ordered_eq updateOrderFromPayment_def Let_def)

text \<open>
  An accepted notification for an existing order: the response, the status of the order
  afterwards, and the products, which the handler leaves alone.
\<close>

lemma accepted_notification:
  assumes "verifyPayfastSignature md5 e (AList.delete ''signature'' body) (map_of body ''signature'')"
    and "map_of (AList.delete ''signature'' body) ''m_payment_id'' = Some order_id"
    and "orders d order_id = Some ord"
  shows "fst (handlePayfastNotification md5 e now body d) = 200"
    and "map_option o_status (orders (snd (handlePayfastNotification md5 e now body d)) order_id)
         = Some (if map_of (AList.delete ''signature'' body) ''payment_status'' = Some ''COMPLETE''
                 then ''Processing''
                 else if map_of (AList.delete ''signature'' body) ''payment_status'' = Some ''FAILED''
                 then ''Cancelled'' else o_status ord)"
    and "products (snd (handlePayfastNotification md5 e now body d)) = products d"
  using assms
  by (simp_all add: handlePayfastNotification_def updateOrderFromPayment_def Let_def)

text \<open>
  Claim C4.  The same notification delivered \<open>N \<ge> 1\<close> times leaves the database, and so
  the referenced order, as one delivery does: delivered at the times \<open>ts\<close> it leaves the
  state of a single delivery at the last of them (the payment result carries the time of
  the delivery, \<^verbatim>\<open>update_time\<close>), and \<open>n\<close> deliveries at one time leave the state of one.
  No delivery changes a product, so there is no restock and no decrement to repeat.
\<close>

theorem notification_replay_is_idempotent:
  assumes "ts \<noteq> []" and "1 \<le> n"
  shows "deliveries md5 e ts body d = snd (handlePayfastNotification md5 e (last ts) body d)
       \<and> deliveries md5 e (replicate n now) body d
           = snd (handlePayfastNotification md5 e now body d)
       \<and> products (deliveries md5 e ts body d) = products d"
proof -
  have general: "deliveries md5 e ts body d = snd (handlePayfastNotification md5 e (last ts) body d)"
    using assms(1) by (rule deliveries_last)
  from assms(2) have "replicate n now \<noteq> []" and "last (replicate n now) = now"
    by (cases n; simp)+
  with deliveries_last [of "replicate n now" md5 e body d]
  have same: "deliveries md5 e (replicate n now) body d
           = snd (handlePayfastNotification md5 e now body d)"
    by simp
  from general same show ?thesis
    by (simp add: handlePayfastNotification_products)
qed

theorem notification_replay_is_idempotent_witness:
  "deliveries ex_md5 ex_env [''2026-01-01T10:00:00.000Z'', ''2026-01-01T10:00:07.000Z'',
       ''2026-01-01T10:01:00.000Z''] ex_failed_body ex_db_ordered
   = snd (handlePayfastNotification ex_md5 ex_env ''2026-01-01T10:01:00.000Z'' ex_failed_body
        ex_db_ordered)
   \<and> deliveries ex_md5 ex_env (replicate 3 ''2026-01-01T10:00:00.000Z'') ex_failed_body
       ex_db_ordered
     = snd (handlePayfastNotification ex_md5 ex_env ''2026-01-01T10:00:00.000Z'' ex_failed_body
        ex_db_ordered)
   \<and> fst (handlePayfastNotification ex_md5 ex_env ''2026-01-01T10:00:00.000Z'' ex_failed_body
        ex_db_ordered) = 200"
proof -
  have ts: "[''2026-01-01T10:00:00.000Z'', ''2026-01-01T10:00:07.000Z'',
       ''2026-01-01T10:01:00.000Z''] \<noteq> []"
    by simp
  have n: "(1::nat) \<le> 3"
    by simp
  from notification_replay_is_idempotent [OF ts n, of ex_md5 ex_env ex_failed_body ex_db_ordered
      "''2026-01-01T10:00:00.000Z''"]
  show ?thesis
    by (simp add: ex_failed_delivery)
qed

text \<open>
  Claim C5 asks that an accepted notification with payment status \<^verbatim>\<open>FAILED\<close> cancel the
  order and restore the stock of its lines.  \<^verbatim>\<open>handlePayfastNotification\<close> on the example
  shop after the order of two flasks (stock 1), for a notification with a valid signature
  and status \<^verbatim>\<open>FAILED\<close>: the response is 200 and the order becomes \<^verbatim>\<open>Cancelled\<close>, but the
  stock stays 1.  The administrator's \<^verbatim>\<open>Cancelled\<close> update of the same order restores it
  to 3.
\<close>

theorem failed_payment_cancels_without_restock:
  "fst (handlePayfastNotification ex_md5 ex_env ''2026-01-01T10:00:00.000Z'' ex_failed_body
        ex_db_ordered) = 200
   \<and> map_option o_status (orders ex_db_ordered idO) = Some ''Processing''
   \<and> map_option o_status (orders (snd (handlePayfastNotification ex_md5 ex_env
        ''2026-01-01T10:00:00.000Z'' ex_failed_body ex_db_ordered)) idO) = Some ''Cancelled''
   \<and> map_option p_stock (products ex_db idA) = Some 3
   \<and> map_option p_stock (products ex_db_ordered idA) = Some 1
   \<and> map_option p_stock (products (snd (handlePayfastNotification ex_md5 ex_env
        ''2026-01-01T10:00:00.000Z'' ex_failed_body ex_db_ordered)) idA) = Some 1
   \<and> map_option p_stock (products (snd (updateOrderStatus ''2026-01-01T10:00:00.000Z'' idO
        ''Cancelled'' None ex_db_ordered)) idA) = Some 3"
  by (simp add: ex_failed_delivery)
     (simp add: ex_db_ordered_eq ex_db_def ex_order_def idA_def idB_def updateOrderStatus_def
        handleStatusChange_def validStatuses_def truthy_str_def Let_def)

section \<open>Claims on signatures\<close>

lemma ex_signatureString:
  "signatureString (payfastParams ex_env_pass idO 105)
   = ''amount=105.00&cancel_url=https%3A%2F%2Fshop.example%2Fcancel&item_name=Order%20%2365f1a0000000000000000c03&m_payment_id=65f1a0000000000000000c03&merchant_id=10000100&merchant_key=46f0cd694581a&notify_url=https%3A%2F%2Fshop.example%2Fnotify&passphrase=secret&return_url=https%3A%2F%2Fshop.example%2Freturn''"
  by code_simp

lemma ex_verifyString_all:
  "verifyString ex_env_pass (payfastParams ex_env_pass idO 105)
   = ''amount=105.00&cancel_url=https%3A%2F%2Fshop.example%2Fcancel&item_name=Order%20%2365f1a0000000000000000c03&m_payment_id=65f1a0000000000000000c03&merchant_id=10000100&merchant_key=46f0cd694581a&notify_url=https%3A%2F%2Fshop.example%2Fnotify&passphrase=secret&return_url=https%3A%2F%2Fshop.example%2Freturn&passphrase=secret''"
  by code_simp

lemma ex_verifyString_fields:
  "verifyString ex_env_pass (AList.delete ''passphrase'' (payfastParams ex_env_pass idO 105))
   = ''amount=105.00&cancel_url=https%3A%2F%2Fshop.example%2Fcancel&item_name=Order%20%2365f1a0000000000000000c03&m_payment_id=65f1a0000000000000000c03&merchant_id=10000100&merchant_key=46f0cd694581a&notify_url=https%3A%2F%2Fshop.example%2Fnotify&return_url=https%3A%2F%2Fshop.example%2Freturn&passphrase=secret''"
  by code_simp

lemma verifyString_without_passphrase:
  "\<not> truthy_str (PAYFAST_PASSPHRASE e) \<Longrightarrow> verifyString e data = signatureString data"
  by (simp add: verifyString_def)

lemma generator_accepted_without_passphrase:
  "\<not> truthy_str (PAYFAST_PASSPHRASE e) \<Longrightarrow>
   verifyPayfastSignature md5 e (payfastParams e order_id totalAmount)
     (Some (payfastSignature md5 e order_id totalAmount))"
  by (simp add: verifyPayfastSignature_def payfastSignature_def verifyString_without_passphrase)

lemma sorted_keys_with_passphrase:
  "sort [''merchant_id'', ''merchant_key'', ''return_url'', ''cancel_url'', ''notify_url'',
         ''m_payment_id'', ''amount'', ''item_name'', ''passphrase'']
   = [''amount'', ''cancel_url'', ''item_name'', ''m_payment_id'', ''merchant_id'',
      ''merchant_key'', ''notify_url'', ''passphrase'', ''return_url'']"
  by code_simp

lemma sorted_keys_without_passphrase:
  "sort [''merchant_id'', ''merchant_key'', ''return_url'', ''cancel_url'', ''notify_url'',
         ''m_payment_id'', ''amount'', ''item_name'']
   = [''amount'', ''cancel_url'', ''item_name'', ''m_payment_id'', ''merchant_id'',
      ''merchant_key'', ''notify_url'', ''return_url'']"
  by code_simp

lemma signatureString_with_passphrase:
  assumes "truthy_str (PAYFAST_PASSPHRASE e)"
  shows "signatureString (payfastParams e order_id totalAmount)
   = ''amount='' @ encodeURIComponent (toFixed2 totalAmount)
     @ ''&cancel_url='' @ encodeURIComponent (str_of (PAYFAST_CANCEL_URL e))
     @ ''&item_name='' @ encodeURIComponent (''Order #'' @ order_id)
     @ ''&m_payment_id='' @ encodeURIComponent order_id
     @ ''&merchant_id='' @ encodeURIComponent (str_of (PAYFAST_MERCHANT_ID e))
     @ ''&merchant_key='' @ encodeURIComponent (str_of (PAYFAST_MERCHANT_KEY e))
     @ ''&notify_url='' @ encodeURIComponent (str_of (PAYFAST_NOTIFY_URL e))
     @ ''&passphrase='' @ encodeURIComponent (str_of (PAYFAST_PASSPHRASE e))
     @ ''&return_url='' @ encodeURIComponent (str_of (PAYFAST_RETURN_URL e))"
proof -
  have keys: "map fst (payfastParams e order_id totalAmount)
    = [''merchant_id'', ''merchant_key'', ''return_url'', ''cancel_url'', ''notify_url'',
         ''m_payment_id'', ''amount'', ''item_name'', ''passphrase'']"
    using assms by (simp add: payfastParams_def)
  show ?thesis
    unfolding signatureString_def keys sorted_keys_with_passphrase
    using assms by (simp add: payfastParams_def str_of_def)
qed

lemma verifyString_with_passphrase:
  assumes "truthy_str (PAYFAST_PASSPHRASE e)"
  shows "verifyString e (AList.delete ''passphrase'' (payfastParams e order_id totalAmount))
   = ''amount='' @ encodeURIComponent (toFixed2 totalAmount)
     @ ''&cancel_url='' @ encodeURIComponent (str_of (PAYFAST_CANCEL_URL e))
     @ ''&item_name='' @ encodeURIComponent (''Order #'' @ order_id)
     @ ''&m_payment_id='' @ encodeURIComponent order_id
     @ ''&merchant_id='' @ encodeURIComponent (str_of (PAYFAST_MERCHANT_ID e))
     @ ''&merchant_key='' @ encodeURIComponent (str_of (PAYFAST_MERCHANT_KEY e))
     @ ''&notify_url='' @ encodeURIComponent (str_of (PAYFAST_NOTIFY_URL e))
     @ ''&return_url='' @ encodeURIComponent (str_of (PAYFAST_RETURN_URL e))
     @ ''&passphrase='' @ encodeURIComponent (str_of (PAYFAST_PASSPHRASE e))"
proof -
  have data: "AList.delete ''passphrase'' (payfastParams e order_id totalAmount)
    = [(''merchant_id'', str_of (PAYFAST_MERCHANT_ID e)),
      (''merchant_key'', str_of (PAYFAST_MERCHANT_KEY e)),
      (''return_url'', str_of (PAYFAST_RETURN_URL e)),
      (''cancel_url'', str_of (PAYFAST_CANCEL_URL e)),
      (''notify_url'', str_of (PAYFAST_NOTIFY_URL e)),
      (''m_payment_id'', order_id),
      (''amount'', toFixed2 totalAmount),
      (''item_name'', ''Order #'' @ order_id)]"
    using assms by (simp add: payfastParams_def AList.delete_eq)
  have keys: "map fst [(''merchant_id'', str_of (PAYFAST_MERCHANT_ID e)),
      (''merchant_key'', str_of (PAYFAST_MERCHANT_KEY e)),
      (''return_url'', str_of (PAYFAST_RETURN_URL e)),
      (''cancel_url'', str_of (PAYFAST_CANCEL_URL e)),
      (''notify_url'', str_of (PAYFAST_NOTIFY_URL e)),
      (''m_payment_id'', order_id),
      (''amount'', toFixed2 totalAmount),
      (''item_name'', ''Order #'' @ order_id)]
    = [''merchant_id'', ''merchant_key'', ''return_url'', ''cancel_url'', ''notify_url'',
         ''m_payment_id'', ''amount'', ''item_name'']"
    by simp
  show ?thesis
    unfolding verifyString_def data signatureString_def keys sorted_keys_without_passphrase
    using assms by (simp add: str_of_def)
qed

lemma generator_rejected_with_passphrase:
  assumes "truthy_str (PAYFAST_PASSPHRASE e)"
  shows "signatureString (payfastParams e order_id totalAmount)
         \<noteq> verifyString e (payfastParams e order_id totalAmount)"
    and "signatureString (payfastParams e order_id totalAmount)
         \<noteq> verifyString e (AList.delete ''passphrase'' (payfastParams e order_id totalAmount))"
proof -
  show "signatureString (payfastParams e order_id totalAmount)
         \<noteq> verifyString e (payfastParams e order_id totalAmount)"
    using assms by (simp add: verifyString_def)
  show "signatureString (payfastParams e order_id totalAmount)
         \<noteq> verifyString e (AList.delete ''passphrase'' (payfastParams e order_id totalAmount))"
    unfolding signatureString_with_passphrase [OF assms] verifyString_with_passphrase [OF assms]
    by simp
qed

text \<open>
  Claim C9 asks that the verifier accept what the generator signs, with or without a
  passphrase.  With the passphrase \<^verbatim>\<open>secret\<close> configured, the generator signs a string in
  which \<^verbatim>\<open>passphrase=secret\<close> stands among the sorted keys, before \<^verbatim>\<open>return_url\<close>; the
  verifier appends it at the end.  The two strings differ, whether the notification carries
  the passphrase field or not, and a digest that tells them apart (here the identity)
  rejects the generator's signature.
\<close>

theorem generator_signature_rejected_with_passphrase:
  "truthy_str (PAYFAST_PASSPHRASE ex_env_pass)
   \<and> signatureString (payfastParams ex_env_pass idO 105)
     = ''amount=105.00&cancel_url=https%3A%2F%2Fshop.example%2Fcancel&item_name=Order%20%2365f1a0000000000000000c03&m_payment_id=65f1a0000000000000000c03&merchant_id=10000100&merchant_key=46f0cd694581a&notify_url=https%3A%2F%2Fshop.example%2Fnotify&passphrase=secret&return_url=https%3A%2F%2Fshop.example%2Freturn''
   \<and> verifyString ex_env_pass (AList.delete ''passphrase'' (payfastParams ex_env_pass idO 105))
     = ''amount=105.00&cancel_url=https%3A%2F%2Fshop.example%2Fcancel&item_name=Order%20%2365f1a0000000000000000c03&m_payment_id=65f1a0000000000000000c03&merchant_id=10000100&merchant_key=46f0cd694581a&notify_url=https%3A%2F%2Fshop.example%2Fnotify&return_url=https%3A%2F%2Fshop.example%2Freturn&passphrase=secret''
   \<and> verifyString ex_env_pass (payfastParams ex_env_pass idO 105)
     = ''amount=105.00&cancel_url=https%3A%2F%2Fshop.example%2Fcancel&item_name=Order%20%2365f1a0000000000000000c03&m_payment_id=65f1a0000000000000000c03&merchant_id=10000100&merchant_key=46f0cd694581a&notify_url=https%3A%2F%2Fshop.example%2Fnotify&passphrase=secret&return_url=https%3A%2F%2Fshop.example%2Freturn&passphrase=secret''
   \<and> verifyPayfastSignature ex_md5 ex_env_pass
        (AList.delete ''passphrase'' (payfastParams ex_env_pass idO 105))
        (Some (payfastSignature ex_md5 ex_env_pass idO 105)) = False
   \<and> verifyPayfastSignature ex_md5 ex_env_pass (payfastParams ex_env_pass idO 105)
        (Some (payfastSignature ex_md5 ex_env_pass idO 105)) = False"
proof -
  have pass: "truthy_str (PAYFAST_PASSPHRASE ex_env_pass)"
    by (simp add: ex_env_pass_def truthy_str_def)
  show ?thesis
    unfolding verifyPayfastSignature_def payfastSignature_def ex_md5_def
      ex_signatureString ex_verifyString_all ex_verifyString_fields
    using pass by simp
qed

section \<open>Claims on concurrent attempts\<close>

lemma demand_nonneg:
  "\<forall>it \<in> set its. 0 \<le> i_quantity it \<Longrightarrow> 0 \<le> demand i its"
  by (induction its) auto

lemma committedUnits_Nil [simp]: "committedUnits i [] = 0"
  by (simp add: committedUnits_def)

lemma committedUnits_Cons:
  "committedUnits i (r # rs)
   = (case r of Inl _ \<Rightarrow> 0 | Inr (_, ord) \<Rightarrow> orderedUnits i (o_items ord)) + committedUnits i rs"
  by (simp add: committedUnits_def)

lemma createOrder_nonneg:
  assumes "createOrder md5 e new_id req d = (r, d')"
    and "\<forall>j p. products d j = Some p \<longrightarrow> 0 \<le> p_stock p"
  shows "\<forall>j p. products d' j = Some p \<longrightarrow> 0 \<le> p_stock p"
proof (cases rule: createOrder_cases [where req = req and digest = md5 and e = e
      and new_id = new_id and d = d])
  case fields
  with assms show ?thesis by simp
next
  case items
  with assms show ?thesis by simp
next
  case (loop err ps)
  from loop(3) have "processItems (r_items req) (findProducts (r_items req) (products d))
      (products d) [] 0 = (Inl err, ps)"
    by (simp add: processOrderItems_def)
  from processItems_nonneg [OF this assms(2)] loop(4) assms(1) show ?thesis by auto
next
  case (finish ois sub ps)
  from finish(3) have "processItems (r_items req) (findProducts (r_items req) (products d))
      (products d) [] 0 = (Inr (ois, sub), ps)"
    by (simp add: processOrderItems_def)
  from processItems_nonneg [OF this assms(2)]
  have "\<forall>j p. ps j = Some p \<longrightarrow> 0 \<le> p_stock p" .
  moreover have fin: "finishOrder md5 e new_id req ois sub (d\<lparr>products := ps\<rparr>) = (r, d')"
    using finish(4) assms(1) by simp
  have "products d' = ps"
    using finishOrder_products [of md5 e new_id req ois sub "d\<lparr>products := ps\<rparr>"]
    by (simp add: fin)
  ultimately show ?thesis by simp
qed

lemma createOrder_account:
  assumes "createOrder md5 e new_id req d = (r, d')"
    and "\<forall>it \<in> set (r_items req). 0 \<le> i_quantity it"
    and "products d i = Some p"
  shows "\<exists>p'. products d' i = Some p'
     \<and> (case r of Inl _ \<Rightarrow> 0 | Inr (_, ord) \<Rightarrow> orderedUnits i (o_items ord)) + p_stock p'
       \<le> p_stock p"
proof (cases r)
  case (Inr t)
  then obtain k ord where r: "r = Inr (k, ord)" by (cases t) auto
  from createOrder_created(2,3) [OF assms(1) [unfolded r], of i] assms(3) r
  show ?thesis by auto
next
  case (Inl err)
  show ?thesis
  proof (cases rule: createOrder_cases [where req = req and digest = md5 and e = e
      and new_id = new_id and d = d])
    case fields
    with assms Inl show ?thesis by auto
  next
    case items
    with assms Inl show ?thesis by auto
  next
    case (loop err1 ps)
    from loop(3) have "processItems (r_items req) (findProducts (r_items req) (products d))
        (products d) [] 0 = (Inl err1, ps)"
      by (simp add: processOrderItems_def)
    from processItems_failure [OF this findProducts_le findProducts_agree]
    obtain pre it post where
      split: "r_items req = pre @ it # post" and
      stock: "ps i = map_option (\<lambda>p. p\<lparr>p_stock := p_stock p - demand i pre\<rparr>) (products d i)"
      by blast
    from split assms(2) have "0 \<le> demand i pre"
      by (intro demand_nonneg) auto
    with stock loop(4) assms(1,3) Inl show ?thesis by auto
  next
    case (finish ois sub ps)
    from finish(3) have "processItems (r_items req) (findProducts (r_items req) (products d))
        (products d) [] 0 = (Inr (ois, sub), ps)"
      by (simp add: processOrderItems_def)
    from processItems_success [OF this findProducts_le, of i]
    have stock: "ps i = map_option (\<lambda>p. p\<lparr>p_stock := p_stock p - demand i (r_items req)\<rparr>)
                         (products d i)" .
    have fin: "finishOrder md5 e new_id req ois sub (d\<lparr>products := ps\<rparr>) = (r, d')"
      using finish(4) assms(1) by simp
    have "products d' = ps"
      using finishOrder_products [of md5 e new_id req ois sub "d\<lparr>products := ps\<rparr>"]
      by (simp add: fin)
    with stock demand_nonneg [OF assms(2), of i] assms(3) Inl show ?thesis by auto
  qed
qed

lemma createOrders_nonneg:
  assumes "createOrders md5 e reqs d = (rs, d')"
    and "\<forall>j p. products d j = Some p \<longrightarrow> 0 \<le> p_stock p"
  shows "\<forall>j p. products d' j = Some p \<longrightarrow> 0 \<le> p_stock p"
  using assms
proof (induction reqs arbitrary: d rs d')
  case Nil
  then show ?case by simp
next
  case (Cons a reqs)
  obtain new_id req where a: "a = (new_id, req)" by (cases a)
  obtain r d1 where first: "createOrder md5 e new_id req d = (r, d1)"
    by (cases "createOrder md5 e new_id req d")
  obtain rs1 d2 where rest: "createOrders md5 e reqs d1 = (rs1, d2)"
    by (cases "createOrders md5 e reqs d1")
  from Cons.prems(1) a first rest have "d' = d2" by simp
  with Cons.IH [OF rest createOrder_nonneg [OF first Cons.prems(2)]] show ?case by simp
qed

lemma createOrders_account:
  assumes "createOrders md5 e reqs d = (rs, d')"
    and "\<forall>a \<in> set reqs. \<forall>it \<in> set (r_items (snd a)). 0 \<le> i_quantity it"
    and "products d i = Some p"
  shows "\<exists>p'. products d' i = Some p' \<and> committedUnits i rs + p_stock p' \<le> p_stock p"
  using assms
proof (induction reqs arbitrary: d rs p d')
  case Nil
  then show ?case by simp
next
  case (Cons a reqs)
  obtain new_id req where a: "a = (new_id, req)" by (cases a)
  obtain r d1 where first: "createOrder md5 e new_id req d = (r, d1)"
    by (cases "createOrder md5 e new_id req d")
  obtain rs1 d2 where rest: "createOrders md5 e reqs d1 = (rs1, d2)"
    by (cases "createOrders md5 e reqs d1")
  from Cons.prems(1) a first rest have res: "rs = r # rs1" "d' = d2" by simp_all
  from Cons.prems(2) a have q: "\<forall>it \<in> set (r_items req). 0 \<le> i_quantity it"
    and qs: "\<forall>a \<in> set reqs. \<forall>it \<in> set (r_items (snd a)). 0 \<le> i_quantity it"
    by simp_all
  from createOrder_account [OF first q Cons.prems(3)] obtain p1 where
    p1: "products d1 i = Some p1"
        "(case r of Inl _ \<Rightarrow> 0 | Inr (_, ord) \<Rightarrow> orderedUnits i (o_items ord)) + p_stock p1
         \<le> p_stock p"
    by blast
  from Cons.IH [OF rest qs p1(1)] obtain p2 where
    p2: "products d2 i = Some p2" "committedUnits i rs1 + p_stock p2 \<le> p_stock p1"
    by blast
  from p1(2) p2 res show ?case
    by (auto simp: committedUnits_Cons)
qed

lemma stepAttempt_nonneg:
  assumes "stepAttempt md5 e a d = (a', d')"
    and "\<forall>j p. products d j = Some p \<longrightarrow> 0 \<le> p_stock p"
  shows "\<forall>j p. products d' j = Some p \<longrightarrow> 0 \<le> p_stock p"
proof (cases a)
  case (Waiting new_id req)
  with assms show ?thesis by (auto split: if_splits)
next
  case (InLoop new_id req its docs ois sub)
  show ?thesis
  proof (cases its)
    case Nil
    with InLoop assms(1) have "d' = snd (finishOrder md5 e new_id req ois sub d)"
      by (auto split: prod.splits)
    with assms(2) show ?thesis by (simp add: finishOrder_products)
  next
    case (Cons it rest)
    show ?thesis
    proof (cases "processItem it docs (products d) ois sub")
      case (Inl err)
      with InLoop Cons assms show ?thesis by auto
    next
      case (Inr t)
      then obtain docs1 ps1 ois1 sub1 where
        step: "processItem it docs (products d) ois sub = Inr (docs1, ps1, ois1, sub1)"
        by (cases t) auto
      with InLoop Cons assms(1) have "products d' = ps1" by auto
      with processItem_nonneg [OF step assms(2)] show ?thesis by simp
    qed
  qed
next
  case (Ended r)
  with assms show ?thesis by simp
qed

lemma runSchedule_nonneg:
  assumes "runSchedule md5 e schedule atts d = (atts', d')"
    and "\<forall>j p. products d j = Some p \<longrightarrow> 0 \<le> p_stock p"
  shows "\<forall>j p. products d' j = Some p \<longrightarrow> 0 \<le> p_stock p"
  using assms
proof (induction schedule arbitrary: atts d)
  case Nil
  then show ?case by simp
next
  case (Cons k ks)
  show ?case
  proof (cases "k < length atts")
    case False
    with Cons.prems(1) have "runSchedule md5 e ks atts d = (atts', d')" by simp
    from Cons.IH [OF this Cons.prems(2)] show ?thesis .
  next
    case True
    obtain a d1 where step: "stepAttempt md5 e (atts ! k) d = (a, d1)"
      by (cases "stepAttempt md5 e (atts ! k) d")
    with True Cons.prems(1) have "runSchedule md5 e ks (atts[k := a]) d1 = (atts', d')"
      by simp
    from Cons.IH [OF this stepAttempt_nonneg [OF step Cons.prems(2)]] show ?thesis .
  qed
qed

lemma runSchedule_ended:
  "runSchedule md5 e (replicate n 0) [Ended r] d = ([Ended r], d)"
  by (induction n) simp_all

lemma runSchedule_single:
  "runSchedule md5 e (replicate (Suc n) 0) [a] d
   = (case stepAttempt md5 e a d of (a', d') \<Rightarrow> runSchedule md5 e (replicate n 0) [a'] d')"
  by simp

lemma runSchedule_loop_alone:
  "runSchedule md5 e (replicate (Suc (length its)) 0) [InLoop new_id req its docs ois sub] d
   = (case processItems its docs (products d) ois sub of
        (Inl err, ps) \<Rightarrow> ([Ended (Inl err)], d\<lparr>products := ps\<rparr>)
      | (Inr (ois', sub'), ps) \<Rightarrow>
          (case finishOrder md5 e new_id req ois' sub' (d\<lparr>products := ps\<rparr>) of
             (r, d') \<Rightarrow> ([Ended r], d')))"
proof (induction its arbitrary: docs ois sub d)
  case Nil
  show ?case by (simp split: prod.splits)
next
  case (Cons it its)
  show ?case
  proof (cases "processItem it docs (products d) ois sub")
    case (Inl err)
    then show ?thesis
      by (simp add: runSchedule_ended runSchedule_single del: replicate.simps runSchedule.simps)
  next
    case (Inr t)
    then obtain docs1 ps1 ois1 sub1 where
      step: "processItem it docs (products d) ois sub = Inr (docs1, ps1, ois1, sub1)"
      by (cases t) auto
    have "runSchedule md5 e (replicate (Suc (length (it # its))) 0)
            [InLoop new_id req (it # its) docs ois sub] d
          = runSchedule md5 e (replicate (Suc (length its)) 0)
            [InLoop new_id req its docs1 ois1 sub1] (d\<lparr>products := ps1\<rparr>)"
      using step
      by (simp add: runSchedule_single del: replicate.simps runSchedule.simps)
    also have "\<dots> = (case processItems its docs1 ps1 ois1 sub1 of
        (Inl err, ps) \<Rightarrow> ([Ended (Inl err)], d\<lparr>products := ps\<rparr>)
      | (Inr (ois', sub'), ps) \<Rightarrow>
          (case finishOrder md5 e new_id req ois' sub' (d\<lparr>products := ps\<rparr>) of
             (r, d') \<Rightarrow> ([Ended r], d')))"
      by (simp add: Cons.IH del: replicate.simps runSchedule.simps
          split: prod.splits sum.splits)
    finally show ?thesis
      using step by simp
  qed
qed

lemma runSchedule_alone:
  "runSchedule md5 e (replicate (Suc (Suc (length (r_items req)))) 0) [Waiting new_id req] d
   = (case createOrder md5 e new_id req d of (r, d') \<Rightarrow> ([Ended r], d'))"
proof (cases rule: createOrder_cases [where req = req and digest = md5 and e = e
      and new_id = new_id and d = d])
  case fields
  then show ?thesis
    by (simp add: runSchedule_ended runSchedule_single del: replicate.simps runSchedule.simps)
next
  case items
  then show ?thesis
    by (simp add: runSchedule_ended runSchedule_single del: replicate.simps runSchedule.simps)
next
  case (loop err ps)
  have "runSchedule md5 e (replicate (Suc (Suc (length (r_items req)))) 0) [Waiting new_id req] d
      = runSchedule md5 e (replicate (Suc (length (r_items req))) 0)
          [InLoop new_id req (r_items req) (findProducts (r_items req) (products d)) [] 0] d"
    using loop(1,2)
    by (simp add: runSchedule_single del: replicate.simps runSchedule.simps)
  then show ?thesis
    using loop(3,4)
    by (simp add: runSchedule_loop_alone processOrderItems_def
        del: replicate.simps runSchedule.simps)
next
  case (finish ois sub ps)
  have "runSchedule md5 e (replicate (Suc (Suc (length (r_items req)))) 0) [Waiting new_id req] d
      = runSchedule md5 e (replicate (Suc (length (r_items req))) 0)
          [InLoop new_id req (r_items req) (findProducts (r_items req) (products d)) [] 0] d"
    using finish(1,2)
    by (simp add: runSchedule_single del: replicate.simps runSchedule.simps)
  then show ?thesis
    using finish(3,4)
    by (simp add: runSchedule_loop_alone processOrderItems_def
        del: replicate.simps runSchedule.simps)
qed

lemma ex_db_nonneg: "\<forall>j q. products ex_db j = Some q \<longrightarrow> 0 \<le> p_stock q"
  by (auto simp: ex_db_def split: if_splits)

lemma ex_serial_results:
  "fst (createOrders ex_md5 ex_env [(idO, ex_request), (idP, ex_request)] ex_db)
   = [Inr (idO, ex_order), Inl (InsufficientStock ''Flask'' 1)]"
  by code_simp

lemma ex_interleaved_stock:
  "map_option p_stock (products (snd (runSchedule ex_md5 ex_env [0, 1, 0, 1, 0, 1]
        [Waiting idO ex_request, Waiting idP ex_request] ex_db)) idA) = Some 1"
  by code_simp

text \<open>
  Claim C1, as stated, fails.  Two requests for two flasks each, 3 in stock, interleaved so
  that both read the products before either saves: both pass the stock check on their own
  copy, both save stock 1, and both orders are created.  The successful attempts hold 4
  units of a stock of 3.
\<close>

theorem interleaved_attempts_oversell_counterexample:
  "map_option p_stock (products ex_db idA) = Some 3
   \<and> results (fst (runSchedule ex_md5 ex_env [0, 1, 0, 1, 0, 1]
        [Waiting idO ex_request, Waiting idP ex_request] ex_db))
     = [Inr (idO, ex_order), Inr (idP, ex_order)]
   \<and> committedUnits idA (results (fst (runSchedule ex_md5 ex_env [0, 1, 0, 1, 0, 1]
        [Waiting idO ex_request, Waiting idP ex_request] ex_db))) = 4
   \<and> map_option p_stock (products (snd (runSchedule ex_md5 ex_env [0, 1, 0, 1, 0, 1]
        [Waiting idO ex_request, Waiting idP ex_request] ex_db)) idA) = Some 1"
  by code_simp

text \<open>
  Claim C1, amended.  The decrement is a check and a subtraction on the attempt's own copy
  of the product followed by a write of the result, not a conditional update of the stored
  document.  Under every interleaving of attempts the stock of no product becomes negative
  (given that none is negative at the start).  When the attempts are handled one after
  another and ask non-negative quantities, the units of a product held by the orders
  created, plus the stock left, do not exceed the stock \<open>S\<close> at the start; so the units
  committed do not exceed \<open>S\<close>.
\<close>

theorem stock_never_negative_and_serial_bound:
  assumes "\<forall>j q. products d j = Some q \<longrightarrow> 0 \<le> p_stock q"
    and "runSchedule md5 e schedule atts d = (atts', d')"
    and "createOrders md5 e reqs d = (rs, d'')"
    and "\<forall>a \<in> set reqs. \<forall>it \<in> set (r_items (snd a)). 0 \<le> i_quantity it"
    and "products d i = Some p"
  shows "(\<forall>j q. products d' j = Some q \<longrightarrow> 0 \<le> p_stock q)
       \<and> (\<exists>p''. products d'' i = Some p'' \<and> 0 \<le> p_stock p''
               \<and> committedUnits i rs + p_stock p'' \<le> p_stock p)
       \<and> committedUnits i rs \<le> p_stock p"
proof -
  have interleaved: "\<forall>j q. products d' j = Some q \<longrightarrow> 0 \<le> p_stock q"
    using assms(2,1) by (rule runSchedule_nonneg)
  from createOrders_account [OF assms(3,4,5)] obtain p'' where
    p'': "products d'' i = Some p''" "committedUnits i rs + p_stock p'' \<le> p_stock p"
    by blast
  from createOrders_nonneg [OF assms(3,1)] p''(1) have "0 \<le> p_stock p''"
    by blast
  with interleaved p'' show ?thesis
    by auto
qed

theorem stock_never_negative_and_serial_bound_witness:
  "products ex_db idA = Some \<lparr>p_name = ''Flask'', p_price = 50, p_stock = 3, p_image = None\<rparr>
   \<and> fst (createOrders ex_md5 ex_env [(idO, ex_request), (idP, ex_request)] ex_db)
     = [Inr (idO, ex_order), Inl (InsufficientStock ''Flask'' 1)]
   \<and> committedUnits idA (fst (createOrders ex_md5 ex_env [(idO, ex_request), (idP, ex_request)]
        ex_db)) \<le> 3
   \<and> (\<exists>q. products (snd (createOrders ex_md5 ex_env [(idO, ex_request), (idP, ex_request)]
              ex_db)) idA = Some q \<and> 0 \<le> p_stock q)
   \<and> (\<exists>q. products (snd (runSchedule ex_md5 ex_env [0, 1, 0, 1, 0, 1]
              [Waiting idO ex_request, Waiting idP ex_request] ex_db)) idA = Some q
          \<and> 0 \<le> p_stock q)"
proof -
  have run: "runSchedule ex_md5 ex_env [0, 1, 0, 1, 0, 1]
      [Waiting idO ex_request, Waiting idP ex_request] ex_db
    = (fst (runSchedule ex_md5 ex_env [0, 1, 0, 1, 0, 1]
        [Waiting idO ex_request, Waiting idP ex_request] ex_db),
       snd (runSchedule ex_md5 ex_env [0, 1, 0, 1, 0, 1]
        [Waiting idO ex_request, Waiting idP ex_request] ex_db))"
    by simp
  have serial: "createOrders ex_md5 ex_env [(idO, ex_request), (idP, ex_request)] ex_db
    = (fst (createOrders ex_md5 ex_env [(idO, ex_request), (idP, ex_request)] ex_db),
       snd (createOrders ex_md5 ex_env [(idO, ex_request), (idP, ex_request)] ex_db))"
    by simp
  have qty: "\<forall>a \<in> set [(idO, ex_request), (idP, ex_request)].
      \<forall>it \<in> set (r_items (snd a)). 0 \<le> i_quantity it"
    by (simp add: ex_request_def)
  have stock: "products ex_db idA
     = Some \<lparr>p_name = ''Flask'', p_price = 50, p_stock = 3, p_image = None\<rparr>"
    by (simp add: ex_db_def idA_def idB_def)
  from ex_interleaved_stock obtain q where
    q: "products (snd (runSchedule ex_md5 ex_env [0, 1, 0, 1, 0, 1]
              [Waiting idO ex_request, Waiting idP ex_request] ex_db)) idA = Some q"
    by auto
  note bound = stock_never_negative_and_serial_bound [OF ex_db_nonneg run serial qty stock]
  from bound q have interleaved:
    "\<exists>q. products (snd (runSchedule ex_md5 ex_env [0, 1, 0, 1, 0, 1]
              [Waiting idO ex_request, Waiting idP ex_request] ex_db)) idA = Some q
          \<and> 0 \<le> p_stock q"
    by blast
  from bound have after:
    "\<exists>q. products (snd (createOrders ex_md5 ex_env [(idO, ex_request), (idP, ex_request)]
              ex_db)) idA = Some q \<and> 0 \<le> p_stock q"
    by blast
  from bound have "committedUnits idA (fst (createOrders ex_md5 ex_env
        [(idO, ex_request), (idP, ex_request)] ex_db))
      \<le> p_stock \<lparr>p_name = ''Flask'', p_price = 50, p_stock = 3, p_image = None\<rparr>"
    by blast
  then have committed: "committedUnits idA (fst (createOrders ex_md5 ex_env
        [(idO, ex_request), (idP, ex_request)] ex_db)) \<le> 3"
    by (simp del: createOrders.simps)
  from stock ex_serial_results committed after interleaved show ?thesis
    by blast
qed

end
